theory Spec2Isabelle
  imports Complex_Main "HOL-Library.Multiset"
begin

section \<open>Attendance and payroll rules of routes/employees.js\<close>

text \<open>
  The route handlers of \<^verbatim>\<open>src/routes/employees.js\<close> are embedded as functions on an explicit
  employee document: a handler takes the result of \<^verbatim>\<open>Employee.findById\<close> (an
  \<open>employee option\<close>) and the wall clock, and returns either the error it answers with or the
  document it saves.

  Conventions of the embedding.
  \<^item> A \<^verbatim>\<open>Date\<close> is the number of milliseconds on the server's local wall clock, an \<open>int\<close>;
    a calendar day is 86400000 of them (no time zone database and no daylight saving, as the
    specification's non-goals say).
  \<^item> A JavaScript number is a double: it is represented by its value, a rational (\<open>rat\<close>), and
    every sum, difference, product and quotient of numbers is rounded to the nearest double,
    ties to even (\<open>fl\<close>, with \<open>dadd\<close>, \<open>dsub\<close>, \<open>dmul\<close>, \<open>ddiv\<close>); \<^verbatim>\<open>Math.round\<close>,
    \<^verbatim>\<open>Math.floor\<close>, \<^verbatim>\<open>Math.max\<close>, \<^verbatim>\<open>Math.min\<close> and the comparisons are exact. The two zeros are
    one value, and a result beyond the largest double (where the language has \<^verbatim>\<open>Infinity\<close>) is
    outside the model. An array length, a count and a number of minutes or milliseconds is an
    \<open>int\<close> or a \<open>nat\<close>.
  \<^item> The whole minutes between two dates (\<open>late_minutes\<close>, \<open>early_leave_minutes\<close>, the duration
    set by \<open>end_break\<close>) are written with the exact quotient: for dates less than \<open>2 ^ 53\<close>
    milliseconds apart the double quotient has the same floor and the same rounding
    (\<open>late_minutes_double\<close>, \<open>early_leave_minutes_double\<close>, \<open>end_break_double\<close>).
  \<^item> A field that may be \<^verbatim>\<open>undefined\<close> is an \<open>option\<close>.
  \<^item> \<^verbatim>\<open>employee.save()\<close> is taken to succeed; a handler that returns early saves nothing.
\<close>

subsection \<open>Numbers and dates\<close>

definition js_round :: "rat \<Rightarrow> int" where
  \<comment> \<open>\<^verbatim>\<open>Math.round\<close>: to the nearest integer, a half goes up\<close>
  "js_round x = \<lfloor>x + 1 / 2\<rfloor>"

text \<open>
  Rounding to the nearest double (IEEE 754 binary64, round to nearest, ties to even). A
  positive \<open>x\<close> is scaled by a power of two to \<open>m\<close> with \<open>2 ^ 52 \<le> m < 2 ^ 53\<close> (or to the
  exponent -1074 of the subnormal numbers), \<open>m\<close> is rounded to an integer, and the result is
  scaled back.
\<close>

definition round_half_even :: "rat \<Rightarrow> int" where
  "round_half_even m =
     (let f = \<lfloor>m\<rfloor>; r = m - of_int f
      in if r < 1 / 2 then f else if 1 / 2 < r then f + 1 else if even f then f else f + 1)"

definition pow2 :: "int \<Rightarrow> rat" where
  "pow2 e = (if 0 \<le> e then 2 ^ nat e else 1 / 2 ^ nat (- e))"

function scale_up :: "rat \<Rightarrow> int \<Rightarrow> rat \<times> int" where
  "scale_up m e = (if m < 2 ^ 52 \<and> - 1074 < e then scale_up (m * 2) (e - 1) else (m, e))"
  by pat_completeness auto
termination
  by (relation "measure (\<lambda>(m, e). nat (e + 1074))") auto

function scale_down :: "rat \<Rightarrow> int \<Rightarrow> rat \<times> int" where
  "scale_down m e = (if 2 ^ 53 \<le> m \<and> e < 971 then scale_down (m / 2) (e + 1) else (m, e))"
  by pat_completeness auto
termination
  by (relation "measure (\<lambda>(m, e). nat (971 - e))") auto

declare scale_up.simps [simp del] scale_down.simps [simp del]

definition fl_pos :: "rat \<Rightarrow> rat" where
  "fl_pos x =
     (let (m, e) = (if x < 2 ^ 52 then scale_up x 0 else scale_down x 0)
      in of_int (round_half_even m) * pow2 e)"

definition fl :: "rat \<Rightarrow> rat" where
  \<comment> \<open>the double nearest to \<open>x\<close>; also the value of a decimal literal, as in \<open>fl (3 / 10)\<close> for
      \<^verbatim>\<open>0.3\<close>\<close>
  "fl x = (if x = 0 then 0 else if 0 < x then fl_pos x else - fl_pos (- x))"

definition dadd :: "rat \<Rightarrow> rat \<Rightarrow> rat" where
  \<comment> \<open>\<^verbatim>\<open>x + y\<close>\<close>
  "dadd x y = fl (x + y)"

definition dsub :: "rat \<Rightarrow> rat \<Rightarrow> rat" where
  \<comment> \<open>\<^verbatim>\<open>x - y\<close>\<close>
  "dsub x y = fl (x - y)"

definition dmul :: "rat \<Rightarrow> rat \<Rightarrow> rat" where
  \<comment> \<open>\<^verbatim>\<open>x * y\<close>\<close>
  "dmul x y = fl (x * y)"

definition ddiv :: "rat \<Rightarrow> rat \<Rightarrow> rat" where
  \<comment> \<open>\<^verbatim>\<open>x / y\<close>, for a divisor other than 0\<close>
  "ddiv x y = fl (x / y)"

definition dround2 :: "rat \<Rightarrow> rat" where
  \<comment> \<open>\<^verbatim>\<open>Math.round(x * 100) / 100\<close>\<close>
  "dround2 x = ddiv (of_int (js_round (dmul x 100))) 100"

definition msPerDay :: int where
  "msPerDay = 24 * 60 * 60 * 1000"

definition day_of :: "int \<Rightarrow> int" where
  \<comment> \<open>the calendar day a date falls on: what \<^verbatim>\<open>toDateString()\<close> distinguishes\<close>
  "day_of t = t div msPerDay"

definition midnight :: "int \<Rightarrow> int" where
  \<comment> \<open>\<^verbatim>\<open>new Date(now.getFullYear(), now.getMonth(), now.getDate())\<close>\<close>
  "midnight now = now - now mod msPerDay"

definition setHours :: "int \<Rightarrow> int \<times> int \<Rightarrow> int" where
  \<comment> \<open>\<^verbatim>\<open>d.setHours(hour, minute, 0, 0)\<close> on a copy of \<open>d\<close>\<close>
  "setHours d hm = midnight d + fst hm * (60 * 60 * 1000) + snd hm * (60 * 1000)"

subsection \<open>Data model\<close>

datatype status = Present | Late | Overtime | EarlyLeave | HalfDay | Absent

record geo_point =
  latitude :: rat
  longitude :: rat
  address :: string

record break_interval =
  startTime :: int
  endTime :: "int option"
  duration :: "int option"
  break_type :: string

record attendance_day =
  date :: int
  loginTime :: "int option"
  logoutTime :: "int option"
  isPresent :: bool
  status :: status
  lateMinutes :: int
  earlyLeaveMinutes :: "int option"
  workLocation :: string
  checkInLocation :: "geo_point option"
  checkOutLocation :: "geo_point option"
  breaks :: "break_interval list"
  totalBreakTime :: int
  hoursWorked :: "rat option"
  overtimeHours :: "rat option"

text \<open>
  A shift time is a valid \<^verbatim>\<open>"HH:MM"\<close> string (the data model's invariant); it is represented
  by the pair of numbers that \<^verbatim>\<open>split(':').map(Number)\<close> reads from it, and \<open>None\<close> is an
  unset (falsy) time.
\<close>

record shift_timing =
  shift_startTime :: "(int \<times> int) option"
  shift_endTime :: "(int \<times> int) option"

record salary_config =
  salary_base :: rat
  salary_overtime :: "rat option"
  salary_bonus :: "rat option"
  salary_deductions :: "rat option"

record employee =
  emp_name :: string
  department :: string
  isActive :: bool
  shiftTiming :: shift_timing
  salary :: salary_config
  hourlyRate :: "rat option"
  attendance :: "attendance_day list"
  lastLogin :: "int option"

text \<open>
  The error kinds, by the message the handler answers with:
  \<open>NotFound\<close> 'Employee not found', \<open>InactiveEmployee\<close> 'Cannot check in inactive employee',
  \<open>AlreadyCheckedIn\<close> 'Already checked in today', \<open>NotCheckedIn\<close> 'Not checked in today' and
  'Employee not checked in today', \<open>AlreadyCheckedOut\<close> 'Already checked out today' and
  'Employee already checked out', \<open>BreakInProgress\<close> 'Break already in progress',
  \<open>NoOpenBreak\<close> 'No ongoing break found', \<open>NoAttendanceRecord\<close> 'No attendance record found
  for today', \<open>InvalidInput\<close> 'Invalid break type'. The handlers test for a missing day record
  and for a missing open break in two guards with two messages, so the two are kept apart.
\<close>

datatype error =
  NotFound | InactiveEmployee | AlreadyCheckedIn | NotCheckedIn | AlreadyCheckedOut
  | BreakInProgress | NoOpenBreak | NoAttendanceRecord | InvalidInput

subsection \<open>Helpers for in-place mutation\<close>

fun update_first :: "('a \<Rightarrow> bool) \<Rightarrow> ('a \<Rightarrow> 'a) \<Rightarrow> 'a list \<Rightarrow> 'a list" where
  \<comment> \<open>mutating the element that \<^verbatim>\<open>Array.prototype.find\<close> returned: the first one that matches\<close>
  "update_first P f [] = []"
| "update_first P f (x # xs) = (if P x then f x # xs else x # update_first P f xs)"

definition same_day :: "int \<Rightarrow> attendance_day \<Rightarrow> bool" where
  \<comment> \<open>\<^verbatim>\<open>att.date.toDateString() === today.toDateString()\<close>\<close>
  "same_day today att \<longleftrightarrow> day_of (date att) = day_of today"

definition is_open :: "break_interval \<Rightarrow> bool" where
  \<comment> \<open>\<^verbatim>\<open>!b.endTime\<close>: a \<^verbatim>\<open>Date\<close> is truthy, so only a missing end time is falsy\<close>
  "is_open b \<longleftrightarrow> endTime b = None"

definition shift_start :: "employee \<Rightarrow> int \<times> int" where
  \<comment> \<open>\<^verbatim>\<open>employee.shiftTiming.startTime || '09:00'\<close>, split and read as numbers\<close>
  "shift_start e = (case shift_startTime (shiftTiming e) of Some hm \<Rightarrow> hm | None \<Rightarrow> (9, 0))"

definition shift_end :: "employee \<Rightarrow> int \<times> int" where
  \<comment> \<open>\<^verbatim>\<open>employee.shiftTiming.endTime || '18:00'\<close>, split and read as numbers\<close>
  "shift_end e = (case shift_endTime (shiftTiming e) of Some hm \<Rightarrow> hm | None \<Rightarrow> (18, 0))"

subsection \<open>Check-in (POST /:id/checkin)\<close>

definition late_minutes :: "int \<Rightarrow> employee \<Rightarrow> int" where
  \<comment> \<open>\<^verbatim>\<open>Math.max(0, Math.floor((now - shiftStartTime) / (1000 * 60)))\<close>\<close>
  "late_minutes now e =
     max 0 \<lfloor>(of_int (now - setHours (midnight now) (shift_start e)) :: rat) / (1000 * 60)\<rfloor>"

definition checkin_status :: "int \<Rightarrow> status" where
  "checkin_status lateMins = (if lateMins > 15 then Late else Present)"

definition attendanceData ::
  "int \<Rightarrow> int \<Rightarrow> string \<Rightarrow> geo_point option \<Rightarrow> attendance_day" where
  \<comment> \<open>the object literal of the handler, as a record that is pushed: the fields it does not
      name are absent\<close>
  "attendanceData now lateMins workLoc loc =
     \<lparr> date = midnight now, loginTime = Some now, logoutTime = None, isPresent = True,
       status = checkin_status lateMins, lateMinutes = lateMins, earlyLeaveMinutes = None,
       workLocation = workLoc, checkInLocation = loc, checkOutLocation = None,
       breaks = [], totalBreakTime = 0, hoursWorked = None, overtimeHours = None \<rparr>"

definition assign_attendanceData ::
  "int \<Rightarrow> int \<Rightarrow> string \<Rightarrow> geo_point option \<Rightarrow> attendance_day \<Rightarrow> attendance_day" where
  \<comment> \<open>\<^verbatim>\<open>Object.assign(existingAttendance, attendanceData)\<close>: the named fields are overwritten,
      the others stay\<close>
  "assign_attendanceData now lateMins workLoc loc att =
     att\<lparr> date := midnight now, loginTime := Some now, isPresent := True,
          status := checkin_status lateMins, lateMinutes := lateMins,
          workLocation := workLoc, checkInLocation := loc,
          breaks := [], totalBreakTime := 0 \<rparr>"

definition body_workLocation :: "string option \<Rightarrow> string" where
  \<comment> \<open>\<^verbatim>\<open>const { workLocation = 'dining' } = req.body\<close>\<close>
  "body_workLocation w = (case w of Some x \<Rightarrow> x | None \<Rightarrow> ''dining'')"

definition checkin ::
  "int \<Rightarrow> geo_point option \<Rightarrow> string option \<Rightarrow> employee option \<Rightarrow> error + employee" where
  \<comment> \<open>\<open>loc\<close> is the value of \<^verbatim>\<open>latitude && longitude ? {...} : undefined\<close>; \<open>workLoc\<close> is
      the body's \<^verbatim>\<open>workLocation\<close>, with its default 'dining'\<close>
  "checkin now loc workLoc found =
     (case found of
        None \<Rightarrow> Inl NotFound
      | Some e \<Rightarrow>
          if \<not> isActive e then Inl InactiveEmployee
          else
            let today = midnight now;
                existingAttendance = find (same_day today) (attendance e);
                workLocation = body_workLocation workLoc
            in if (case existingAttendance of
                     Some att \<Rightarrow> loginTime att \<noteq> None
                   | None \<Rightarrow> False)
               then Inl AlreadyCheckedIn
               else
                 let lateMins = late_minutes now e
                 in Inr (e\<lparr> attendance :=
                            (case existingAttendance of
                               Some att \<Rightarrow>
                                 update_first (same_day today)
                                   (assign_attendanceData now lateMins workLocation loc)
                                   (attendance e)
                             | None \<Rightarrow>
                                 attendance e @ [attendanceData now lateMins workLocation loc]),
                          lastLogin := Some now \<rparr>))"

subsection \<open>Breaks (POST /:id/break/start, POST /:id/break/end)\<close>

definition end_break :: "int \<Rightarrow> break_interval \<Rightarrow> break_interval" where
  \<comment> \<open>\<^verbatim>\<open>b.endTime = now; b.duration = Math.round((now - b.startTime) / (1000 * 60))\<close>\<close>
  "end_break now b =
     b\<lparr> endTime := Some now,
        duration := Some (js_round ((of_int (now - startTime b) :: rat) / (1000 * 60))) \<rparr>"

definition duration_or_0 :: "break_interval \<Rightarrow> int" where
  \<comment> \<open>\<^verbatim>\<open>breakItem.duration || 0\<close>\<close>
  "duration_or_0 b = (case duration b of Some d \<Rightarrow> d | None \<Rightarrow> 0)"

definition reduce_duration :: "break_interval list \<Rightarrow> int" where
  \<comment> \<open>\<^verbatim>\<open>breaks.reduce((total, breakItem) => total + (breakItem.duration || 0), 0)\<close>\<close>
  "reduce_duration bs = foldl (\<lambda>total breakItem. total + duration_or_0 breakItem) 0 bs"

definition end_ongoing_break :: "int \<Rightarrow> attendance_day \<Rightarrow> attendance_day" where
  \<comment> \<open>ends the break that \<^verbatim>\<open>breaks.find(b => !b.endTime)\<close> returned and updates the total\<close>
  "end_ongoing_break now att =
     (let bs = update_first is_open (end_break now) (breaks att)
      in att\<lparr> breaks := bs, totalBreakTime := reduce_duration bs \<rparr>)"

definition validBreakTypes :: "string list" where
  "validBreakTypes = [''lunch'', ''tea'', ''dinner'', ''other'']"

definition body_type :: "string option \<Rightarrow> string" where
  \<comment> \<open>\<^verbatim>\<open>const { type = 'other' } = req.body\<close>\<close>
  "body_type ty = (case ty of Some t \<Rightarrow> t | None \<Rightarrow> ''other'')"

definition new_break :: "int \<Rightarrow> string \<Rightarrow> break_interval" where
  \<comment> \<open>the object \<^verbatim>\<open>{ startTime: today, type: type }\<close> that is pushed\<close>
  "new_break now type =
     \<lparr> startTime = now, endTime = None, duration = None, break_type = type \<rparr>"

definition break_start :: "int \<Rightarrow> string option \<Rightarrow> employee option \<Rightarrow> error + employee" where
  "break_start now ty found =
     (let type = body_type ty
      in if type \<notin> set validBreakTypes then Inl InvalidInput
         else
           case found of
             None \<Rightarrow> Inl NotFound
           | Some e \<Rightarrow>
               (case find (same_day now) (attendance e) of
                  None \<Rightarrow> Inl NotCheckedIn
                | Some todayAttendance \<Rightarrow>
                    if loginTime todayAttendance = None then Inl NotCheckedIn
                    else if logoutTime todayAttendance \<noteq> None then Inl AlreadyCheckedOut
                    else if find is_open (breaks todayAttendance) \<noteq> None
                      then Inl BreakInProgress
                    else
                      Inr (e\<lparr> attendance :=
                             update_first (same_day now)
                               (\<lambda>att. att\<lparr> breaks := breaks att @ [new_break now type] \<rparr>)
                               (attendance e) \<rparr>)))"

definition break_end :: "int \<Rightarrow> employee option \<Rightarrow> error + employee" where
  "break_end now found =
     (case found of
        None \<Rightarrow> Inl NotFound
      | Some e \<Rightarrow>
          (case find (same_day now) (attendance e) of
             None \<Rightarrow> Inl NoAttendanceRecord
           | Some todayAttendance \<Rightarrow>
               if find is_open (breaks todayAttendance) = None then Inl NoOpenBreak
               else
                 Inr (e\<lparr> attendance :=
                        update_first (same_day now) (end_ongoing_break now) (attendance e) \<rparr>)))"

subsection \<open>Check-out (POST /:id/checkout)\<close>

definition hours_worked :: "int \<Rightarrow> int \<Rightarrow> int \<Rightarrow> rat" where
  \<comment> \<open>\<^verbatim>\<open>((now - loginTime) / (1000 * 60) - totalBreakTime) / 60\<close>, each operation on doubles\<close>
  "hours_worked now login totalBreak =
     ddiv (dsub (ddiv (dsub (of_int now) (of_int login)) (dmul 1000 60)) (of_int totalBreak)) 60"

definition standardShiftHours :: "employee \<Rightarrow> rat" where
  \<comment> \<open>\<^verbatim>\<open>((endHour * 60 + endMinute) - (startHour * 60 + startMinute)) / 60\<close>\<close>
  "standardShiftHours e =
     ddiv (dsub (dadd (dmul (of_int (fst (shift_end e))) 60) (of_int (snd (shift_end e))))
                (dadd (dmul (of_int (fst (shift_start e))) 60) (of_int (snd (shift_start e)))))
          60"

definition overtime_hours :: "employee \<Rightarrow> rat \<Rightarrow> rat" where
  \<comment> \<open>\<^verbatim>\<open>Math.max(0, hoursWorked - standardShiftHours)\<close>\<close>
  "overtime_hours e hw = max 0 (dsub hw (standardShiftHours e))"

definition early_leave_minutes :: "int \<Rightarrow> employee \<Rightarrow> int" where
  \<comment> \<open>\<^verbatim>\<open>Math.max(0, Math.floor((shiftEndTime - now) / (1000 * 60)))\<close>\<close>
  "early_leave_minutes now e =
     max 0 \<lfloor>(of_int (setHours (midnight now) (shift_end e) - now) :: rat) / (1000 * 60)\<rfloor>"

definition final_status :: "rat \<Rightarrow> int \<Rightarrow> rat \<Rightarrow> attendance_day \<Rightarrow> attendance_day" where
  \<comment> \<open>the chain \<^verbatim>\<open>if (overtimeHours > 0.5) ... else if (earlyLeaveMinutes > 30) ... else if
      (hoursWorked < 4) ...\<close>, on the doubles before they are rounded to two decimals; 0.5 is a
      double\<close>
  "final_status ot el hw att =
     (if ot > 1 / 2 then att\<lparr> status := Overtime \<rparr>
      else if el > 30 then att\<lparr> status := EarlyLeave, earlyLeaveMinutes := Some el \<rparr>
      else if hw < 4 then att\<lparr> status := HalfDay \<rparr>
      else att)"

definition checkout_day ::
  "int \<Rightarrow> geo_point option \<Rightarrow> employee \<Rightarrow> int \<Rightarrow> attendance_day \<Rightarrow> attendance_day" where
  \<comment> \<open>what the handler does to today's record once its guards have passed\<close>
  "checkout_day now loc e login todayAttendance =
     (let att1 = (if find is_open (breaks todayAttendance) \<noteq> None
                  then end_ongoing_break now todayAttendance else todayAttendance);
          hw = hours_worked now login (totalBreakTime att1);
          ot = overtime_hours e hw;
          el = early_leave_minutes now e;
          att2 = att1\<lparr> logoutTime := Some now,
                       hoursWorked := Some (dround2 hw),
                       overtimeHours := Some (dround2 ot) \<rparr>;
          att3 = (case loc of Some g \<Rightarrow> att2\<lparr> checkOutLocation := Some g \<rparr> | None \<Rightarrow> att2)
      in final_status ot el hw att3)"

definition checkout :: "int \<Rightarrow> geo_point option \<Rightarrow> employee option \<Rightarrow> error + employee" where
  \<comment> \<open>\<open>loc\<close> is the location built when \<^verbatim>\<open>latitude && longitude\<close> holds\<close>
  "checkout now loc found =
     (case found of
        None \<Rightarrow> Inl NotFound
      | Some e \<Rightarrow>
          (case find (same_day (midnight now)) (attendance e) of
             None \<Rightarrow> Inl NotCheckedIn
           | Some todayAttendance \<Rightarrow>
               (case loginTime todayAttendance of
                  None \<Rightarrow> Inl NotCheckedIn
                | Some login \<Rightarrow>
                    if logoutTime todayAttendance \<noteq> None then Inl AlreadyCheckedOut
                    else
                      Inr (e\<lparr> attendance :=
                             update_first (same_day (midnight now))
                               (checkout_day now loc e login) (attendance e) \<rparr>))))"

subsection \<open>Sequences of requests\<close>

datatype event =
  CheckIn int "geo_point option" "string option"
  | CheckOut int "geo_point option"
  | BreakStart int "string option"
  | BreakEnd int

fun handle :: "event \<Rightarrow> employee \<Rightarrow> error + employee" where
  "handle (CheckIn now loc workLoc) e = checkin now loc workLoc (Some e)"
| "handle (CheckOut now loc) e = checkout now loc (Some e)"
| "handle (BreakStart now ty) e = break_start now ty (Some e)"
| "handle (BreakEnd now) e = break_end now (Some e)"

fun run :: "employee \<Rightarrow> event list \<Rightarrow> employee" where
  \<comment> \<open>the document after a sequence of requests: a rejected request saves nothing\<close>
  "run e [] = e"
| "run e (ev # evs) = (case handle ev e of Inl err \<Rightarrow> run e evs | Inr e' \<Rightarrow> run e' evs)"

subsection \<open>The invariant of a day record\<close>

definition closed_break_sum :: "break_interval list \<Rightarrow> int" where
  \<comment> \<open>the specification's words: the sum of \<open>durationMinutes\<close> over the closed breaks\<close>
  "closed_break_sum bs = sum_list (map duration_or_0 (filter (\<lambda>b. \<not> is_open b) bs))"

definition break_wf :: "break_interval \<Rightarrow> bool" where
  \<comment> \<open>a break has a duration exactly when it has an end time\<close>
  "break_wf b \<longleftrightarrow> (endTime b = None) = (duration b = None)"

definition day_inv :: "attendance_day \<Rightarrow> bool" where
  "day_inv att \<longleftrightarrow>
     list_all break_wf (breaks att)
     \<and> totalBreakTime att = closed_break_sum (breaks att)
     \<and> length (filter is_open (breaks att)) \<le> 1
     \<and> (filter is_open (breaks att) \<noteq> [] \<longrightarrow> loginTime att \<noteq> None \<and> logoutTime att = None)
     \<and> (loginTime att \<noteq> None \<and> logoutTime att = None
          \<longrightarrow> status att = Present \<or> status att = Late)"

definition emp_inv :: "employee \<Rightarrow> bool" where
  \<comment> \<open>every day record of the document is well formed; a document without records is\<close>
  "emp_inv e \<longleftrightarrow> list_all day_inv (attendance e)"

subsection \<open>Period statistics (GET /reports/comprehensive, GET /:id/attendance)\<close>

definition attendanceInRange :: "int \<Rightarrow> int \<Rightarrow> attendance_day list \<Rightarrow> attendance_day list" where
  \<comment> \<open>\<^verbatim>\<open>attendance.filter(att => att.date >= start && att.date <= end)\<close>\<close>
  "attendanceInRange start fin atts = filter (\<lambda>att. start \<le> date att \<and> date att \<le> fin) atts"

definition or_0 :: "rat option \<Rightarrow> rat" where
  \<comment> \<open>\<^verbatim>\<open>x || 0\<close> for a number that may be missing\<close>
  "or_0 x = (case x of Some v \<Rightarrow> v | None \<Rightarrow> 0)"

definition reduce_hours :: "(attendance_day \<Rightarrow> rat option) \<Rightarrow> attendance_day list \<Rightarrow> rat" where
  \<comment> \<open>\<^verbatim>\<open>atts.reduce((sum, att) => sum + (att.field || 0), 0)\<close>\<close>
  "reduce_hours field atts = foldl (\<lambda>acc att. dadd acc (or_0 (field att))) 0 atts"

definition attendance_percentage :: "nat \<Rightarrow> nat \<Rightarrow> int" where
  \<comment> \<open>\<^verbatim>\<open>workingDays > 0 ? Math.round((presentDays / workingDays) * 100) : 0\<close>\<close>
  "attendance_percentage present absent =
     (let workingDays = present + absent
      in if workingDays > 0
         then js_round (dmul (ddiv (of_nat present) (of_nat workingDays)) 100) else 0)"

definition punctuality_score :: "nat \<Rightarrow> nat \<Rightarrow> nat \<Rightarrow> int" where
  \<comment> \<open>\<^verbatim>\<open>presentDays > 0 ? Math.round(((presentDays - lateCount - earlyLeaveCount) /
      presentDays) * 100) : 0\<close>\<close>
  "punctuality_score present lates earlyLeaves =
     (if present > 0
      then js_round (dmul (ddiv (of_int (int present - int lates - int earlyLeaves))
                                (of_nat present)) 100)
      else 0)"

definition report_performanceScore :: "int \<Rightarrow> int \<Rightarrow> rat \<Rightarrow> rat" where
  \<comment> \<open>\<^verbatim>\<open>Math.round((attendancePercentage * 0.4 + punctualityScore * 0.3 +
      Math.min(totalHours/160, 1) * 100 * 0.3) * 100) / 100\<close>\<close>
  "report_performanceScore att punct hours =
     dround2 (dadd (dadd (dmul (of_int att) (fl (4 / 10))) (dmul (of_int punct) (fl (3 / 10))))
                   (dmul (dmul (min (ddiv hours 160) 1) 100) (fl (3 / 10))))"

record employee_detail =
  detail_name :: string
  detail_department :: string
  detail_attendancePercentage :: int
  detail_punctualityScore :: int
  detail_presentDays :: nat
  detail_absentDays :: nat
  detail_totalHours :: rat
  detail_overtimeHours :: rat
  detail_lateCount :: nat
  detail_earlyLeaveCount :: nat
  detail_netPay :: rat
  performanceScore :: rat

definition employeeDetail :: "int \<Rightarrow> int \<Rightarrow> employee \<Rightarrow> employee_detail" where
  \<comment> \<open>one turn of \<^verbatim>\<open>employees.forEach\<close> in the comprehensive report: the entry it pushes to
      \<^verbatim>\<open>employeeDetails\<close>\<close>
  "employeeDetail start fin emp =
     (let inRange = attendanceInRange start fin (attendance emp);
          presentDays = length (filter isPresent inRange);
          absentDays = length (filter (\<lambda>att. \<not> isPresent att) inRange);
          totalHours = reduce_hours hoursWorked inRange;
          overtimeHs = reduce_hours overtimeHours inRange;
          lateCount = length (filter (\<lambda>att. status att = Late) inRange);
          earlyLeaveCount = length (filter (\<lambda>att. status att = EarlyLeave) inRange);
          attendancePercentage = attendance_percentage presentDays absentDays;
          punctualityScore = punctuality_score presentDays lateCount earlyLeaveCount;
          dailyBaseSalary = ddiv (salary_base (salary emp)) 30;
          basePay = dmul dailyBaseSalary (of_nat presentDays);
          rate = (case salary_overtime (salary emp) of
                    Some r \<Rightarrow> if r \<noteq> 0 then r
                             else or_0 (map_option (\<lambda>h. dmul h (3 / 2)) (hourlyRate emp))
                  | None \<Rightarrow> or_0 (map_option (\<lambda>h. dmul h (3 / 2)) (hourlyRate emp)));
          overtimePay = dmul rate overtimeHs;
          grossPay = dadd (dadd basePay overtimePay) (or_0 (salary_bonus (salary emp)));
          netPay = dsub grossPay (or_0 (salary_deductions (salary emp)))
      in \<lparr> detail_name = emp_name emp, detail_department = department emp,
           detail_attendancePercentage = attendancePercentage,
           detail_punctualityScore = punctualityScore,
           detail_presentDays = presentDays, detail_absentDays = absentDays,
           detail_totalHours = totalHours, detail_overtimeHours = overtimeHs,
           detail_lateCount = lateCount, detail_earlyLeaveCount = earlyLeaveCount,
           detail_netPay = netPay,
           performanceScore =
             report_performanceScore attendancePercentage punctualityScore totalHours \<rparr>)"

definition sort_desc :: "('a \<Rightarrow> rat) \<Rightarrow> 'a list \<Rightarrow> 'a list" where
  \<comment> \<open>\<^verbatim>\<open>xs.sort((a, b) => key(b) - key(a))\<close>: the sort of the language is stable, and so is
      insertion sort on the negated key\<close>
  "sort_desc key xs = sort_key (\<lambda>x. - key x) xs"

definition report_topPerformers :: "int \<Rightarrow> int \<Rightarrow> employee list \<Rightarrow> employee_detail list" where
  \<comment> \<open>\<^verbatim>\<open>employeeDetails.sort((a, b) => b.performanceScore - a.performanceScore).slice(0, 10)\<close>;
      the projection that follows keeps the score\<close>
  "report_topPerformers start fin employees =
     take 10 (sort_desc performanceScore (map (employeeDetail start fin) employees))"

record range_report =
  range_presentDays :: nat
  range_totalHours :: rat
  range_overtimeHours :: rat
  range_totalBreakTime :: rat
  range_lateCount :: nat
  averageHours :: rat

definition range_attendance :: "int \<Rightarrow> int \<Rightarrow> employee \<Rightarrow> range_report" where
  \<comment> \<open>the custom date range of GET /:id/attendance\<close>
  "range_attendance start fin emp =
     (let inRange = attendanceInRange start fin (attendance emp);
          presentDays = length (filter isPresent inRange);
          totalHours = reduce_hours hoursWorked inRange;
          overtimeHs = reduce_hours overtimeHours inRange;
          totalBreak = foldl (\<lambda>acc att. dadd acc (of_int (totalBreakTime att))) 0 inRange;
          lateCount = length (filter (\<lambda>att. status att = Late) inRange)
      in \<lparr> range_presentDays = presentDays,
           range_totalHours = dround2 totalHours,
           range_overtimeHours = dround2 overtimeHs,
           range_totalBreakTime = dround2 (ddiv totalBreak 60),
           range_lateCount = lateCount,
           averageHours =
             (if presentDays > 0 then dround2 (ddiv totalHours (of_nat presentDays)) else 0) \<rparr>)"

subsection \<open>Dashboard (GET /stats/attendance): top performers\<close>

text \<open>
  The dashboard reads each employee's monthly figures from \<^verbatim>\<open>getMonthlyAttendance\<close>, a method
  of the model that is not among the sources; its results are the input here.
\<close>

record employee_metrics =
  metric_name :: string
  metric_attendancePercentage :: rat
  metric_punctualityScore :: rat
  metric_totalHours :: rat

definition dashboard_performanceScore :: "employee_metrics \<Rightarrow> rat" where
  \<comment> \<open>\<^verbatim>\<open>Math.round((emp.attendancePercentage * 0.7 + emp.punctualityScore * 0.3) * 100) / 100\<close>\<close>
  "dashboard_performanceScore emp =
     dround2 (dadd (dmul (metric_attendancePercentage emp) (fl (7 / 10)))
                   (dmul (metric_punctualityScore emp) (fl (3 / 10))))"

definition sortedByAttendance :: "employee_metrics list \<Rightarrow> employee_metrics list" where
  \<comment> \<open>\<^verbatim>\<open>[...employeeMetrics].sort((a, b) => b.attendancePercentage - a.attendancePercentage)\<close>\<close>
  "sortedByAttendance employeeMetrics = sort_desc metric_attendancePercentage employeeMetrics"

definition dashboard_topPerformers :: "employee_metrics list \<Rightarrow> (employee_metrics \<times> rat) list" where
  \<comment> \<open>\<^verbatim>\<open>sortedByAttendance.slice(0, 5).map(emp => ({...emp, performanceScore: ...}))\<close>: an
      entry is the metrics paired with the score added to them\<close>
  "dashboard_topPerformers employeeMetrics =
     map (\<lambda>emp. (emp, dashboard_performanceScore emp)) (take 5 (sortedByAttendance employeeMetrics))"

subsection \<open>Payslip (GET /:id/salary/:month/:year)\<close>

text \<open>
  \<^verbatim>\<open>getMonthlyAttendance\<close> and \<^verbatim>\<open>calculateSalary\<close> are methods of the model, which is not among
  the sources: the handler is embedded as a function of what they return. A number that is
  \<^verbatim>\<open>NaN\<close> (the product of \<^verbatim>\<open>undefined\<close> and a rate, and what is computed from it) is \<open>None\<close>.
\<close>

record salary_data =
  baseSalary :: "rat option"
  basePay :: "rat option"
  overtimePay :: "rat option"
  grossSalary :: "rat option"

record monthly_attendance =
  monthly_presentDays :: nat
  monthly_absentDays :: nat
  monthly_attendancePercentage :: rat

definition js_or :: "rat option \<Rightarrow> rat option \<Rightarrow> rat option" where
  \<comment> \<open>\<^verbatim>\<open>a || b\<close> on numbers that may be missing: \<open>a\<close> when it is a number other than 0\<close>
  "js_or a b = (case a of Some x \<Rightarrow> if x \<noteq> 0 then Some x else b | None \<Rightarrow> b)"

record payslip =
  basicSalary :: rat
  payslip_overtimePay :: rat
  transport :: rat
  meal :: rat
  mobile :: rat
  performance :: rat
  totalAllowances :: rat
  grossEarnings :: rat
  pf :: "int option"
  esi :: "int option"
  tax :: rat
  advance :: rat
  totalDeductions :: "rat option"
  netSalary :: "rat option"

definition make_payslip :: "monthly_attendance \<Rightarrow> salary_data \<Rightarrow> employee \<Rightarrow> payslip" where
  "make_payslip monthlyAttendance salaryData emp =
     (let perf = (if monthly_attendancePercentage monthlyAttendance \<ge> 95 then 2000 else 0);
          base = js_or (baseSalary salaryData) (basePay salaryData);
          pf_v = map_option (\<lambda>b. js_round (dmul b (fl (12 / 100)))) base;
          esi_v = map_option (\<lambda>b. js_round (dmul b (fl (175 / 10000)))) base;
          adv = or_0 (salary_deductions (salary emp));
          allow = foldl dadd 0 [1000, 500, 300, perf];
          deduct = (case (pf_v, esi_v) of
                      (Some p, Some s) \<Rightarrow> Some (foldl dadd 0 [of_int p, of_int s, 0, adv])
                    | _ \<Rightarrow> None)
      in \<lparr> basicSalary = or_0 base,
           payslip_overtimePay = or_0 (overtimePay salaryData),
           transport = 1000, meal = 500, mobile = 300, performance = perf,
           totalAllowances = allow,
           grossEarnings = dadd (or_0 (grossSalary salaryData)) allow,
           pf = pf_v, esi = esi_v, tax = 0, advance = adv,
           totalDeductions = deduct,
           netSalary =
             map_option (\<lambda>d. dsub (dadd (or_0 (grossSalary salaryData)) allow) d) deduct \<rparr>)"

subsection \<open>A sample employee\<close>

definition sample_employee :: employee where
  \<comment> \<open>an active employee with no shift timing set and no attendance yet\<close>
  "sample_employee =
     \<lparr> emp_name = ''Asha'', department = ''kitchen'', isActive = True,
       shiftTiming = \<lparr> shift_startTime = None, shift_endTime = None \<rparr>,
       salary = \<lparr> salary_base = 30000, salary_overtime = Some 200, salary_bonus = None,
                  salary_deductions = None \<rparr>,
       hourlyRate = None, attendance = [], lastLogin = None \<rparr>"

definition worked_day :: "int \<Rightarrow> rat \<Rightarrow> attendance_day" where
  \<comment> \<open>a day with a check-in at 09:00 and the given hours worked\<close>
  "worked_day d h =
     (attendanceData (d + 32400000) 0 ''dining'' None)
       \<lparr> logoutTime := Some (d + 64800000), hoursWorked := Some h, overtimeHours := Some 0 \<rparr>"

definition three_days_employee :: employee where
  \<comment> \<open>three days present, with 3.5, 3.5 and 3 hours worked\<close>
  "three_days_employee =
     sample_employee\<lparr> attendance :=
       [worked_day 0 (7 / 2), worked_day 86400000 (7 / 2), worked_day 172800000 3] \<rparr>"

definition late_absent_employee :: employee where
  \<comment> \<open>one day present and late, one day not present whose status is late all the same\<close>
  "late_absent_employee =
     sample_employee\<lparr> attendance :=
       [(worked_day 0 8)\<lparr> status := Late \<rparr>,
        (worked_day 86400000 0)\<lparr> isPresent := False, status := Late \<rparr>] \<rparr>"

definition metrics :: "string \<Rightarrow> rat \<Rightarrow> rat \<Rightarrow> employee_metrics" where
  \<comment> \<open>monthly figures of an employee: name, attendance percentage, punctuality score\<close>
  "metrics n a p =
     \<lparr> metric_name = n, metric_attendancePercentage = a, metric_punctualityScore = p,
       metric_totalHours = 0 \<rparr>"

section \<open>Properties\<close>

subsection \<open>Dates\<close>

lemma day_of_midnight: "day_of (midnight now) = day_of now"
  by (simp add: day_of_def midnight_def msPerDay_def minus_mod_eq_mult_div)

lemma same_day_midnight: "same_day (midnight now) att = same_day now att"
  by (simp add: same_day_def day_of_midnight)

lemma late_minutes_div:
  "late_minutes now e = max 0 ((now - setHours (midnight now) (shift_start e)) div 60000)"
proof -
  have "\<lfloor>(of_int (now - setHours (midnight now) (shift_start e)) :: rat) / (1000 * 60)\<rfloor>
        = \<lfloor>(of_int (now - setHours (midnight now) (shift_start e)) :: rat) / of_int 60000\<rfloor>"
    by simp
  also have "\<dots> = (now - setHours (midnight now) (shift_start e)) div 60000"
    by (rule floor_divide_of_int_eq)
  finally show ?thesis by (simp add: late_minutes_def)
qed

subsection \<open>Updating the first match of a list\<close>

lemma find_update_first:
  "(\<And>x. P x \<Longrightarrow> P (f x)) \<Longrightarrow> find P (update_first P f xs) = map_option f (find P xs)"
  by (induction xs) auto

lemma update_first_no_match: "find P xs = None \<Longrightarrow> update_first P f xs = xs"
  by (induction xs) (auto split: if_splits)

lemma list_all_update_first:
  "list_all Q xs \<Longrightarrow> (\<And>x. P x \<Longrightarrow> Q x \<Longrightarrow> Q (f x)) \<Longrightarrow> list_all Q (update_first P f xs)"
  by (induction xs) auto

subsection \<open>Break durations\<close>

lemma reduce_duration_sum: "reduce_duration bs = sum_list (map duration_or_0 bs)"
proof -
  have "foldl (\<lambda>total breakItem. total + duration_or_0 breakItem) a bs
        = a + sum_list (map duration_or_0 bs)" for a
    by (induction bs arbitrary: a) auto
  then show ?thesis by (simp add: reduce_duration_def)
qed

lemma reduce_duration_closed:
  "list_all break_wf bs \<Longrightarrow> reduce_duration bs = closed_break_sum bs"
  unfolding reduce_duration_sum closed_break_sum_def
  by (induction bs) (auto simp: break_wf_def is_open_def duration_or_0_def)

lemma break_wf_end_break: "break_wf (end_break now b)"
  by (simp add: break_wf_def end_break_def)

lemma not_open_end_break: "\<not> is_open (end_break now b)"
  by (simp add: is_open_def end_break_def)

lemma filter_open_update_first:
  "length (filter is_open bs) \<le> 1 \<Longrightarrow> filter is_open (update_first is_open (end_break now) bs) = []"
  by (induction bs) (auto simp: not_open_end_break split: if_splits)


subsection \<open>The handlers keep the invariant\<close>

lemma find_open_None: "find is_open bs = None \<longleftrightarrow> filter is_open bs = []"
  by (induction bs) auto

lemma day_inv_attendanceData: "day_inv (attendanceData now l w loc)"
  by (simp add: day_inv_def attendanceData_def closed_break_sum_def checkin_status_def)

lemma day_inv_assign: "day_inv (assign_attendanceData now l w loc att)"
  by (simp add: day_inv_def assign_attendanceData_def closed_break_sum_def checkin_status_def)

lemma day_inv_push_break:
  assumes "day_inv att" "loginTime att \<noteq> None" "logoutTime att = None"
    "find is_open (breaks att) = None"
  shows "day_inv (att\<lparr> breaks := breaks att @ [new_break now ty] \<rparr>)"
  using assms
  by (simp add: day_inv_def find_open_None closed_break_sum_def break_wf_def is_open_def
      new_break_def)

lemma day_inv_end_ongoing:
  assumes "day_inv att"
  shows "day_inv (end_ongoing_break now att)"
proof -
  let ?bs = "update_first is_open (end_break now) (breaks att)"
  have wf: "list_all break_wf ?bs"
    using assms by (auto simp: day_inv_def intro: list_all_update_first break_wf_end_break)
  have none: "filter is_open ?bs = []"
    using assms by (simp add: day_inv_def filter_open_update_first)
  show ?thesis
    using assms wf none reduce_duration_closed [OF wf]
    by (simp add: day_inv_def end_ongoing_break_def Let_def)
qed

lemma no_open_end_ongoing:
  "day_inv att \<Longrightarrow> filter is_open (breaks (end_ongoing_break now att)) = []"
  by (simp add: day_inv_def end_ongoing_break_def Let_def filter_open_update_first)

lemma breaks_final_status [simp]: "breaks (final_status ot el hw att) = breaks att"
  by (simp add: final_status_def)

lemma totalBreakTime_final_status [simp]:
  "totalBreakTime (final_status ot el hw att) = totalBreakTime att"
  by (simp add: final_status_def)

lemma logoutTime_final_status [simp]: "logoutTime (final_status ot el hw att) = logoutTime att"
  by (simp add: final_status_def)

lemma loginTime_final_status [simp]: "loginTime (final_status ot el hw att) = loginTime att"
  by (simp add: final_status_def)

lemma date_final_status [simp]: "date (final_status ot el hw att) = date att"
  by (simp add: final_status_def)

lemma date_end_ongoing [simp]: "date (end_ongoing_break now att) = date att"
  by (simp add: end_ongoing_break_def Let_def)

lemma date_checkout_day [simp]: "date (checkout_day now loc e login att) = date att"
  by (simp add: checkout_day_def Let_def split: option.splits)

lemma checkout_day_no_open:
  assumes "find is_open (breaks att) = None"
  shows "breaks (checkout_day now loc e login att) = breaks att"
    and "totalBreakTime (checkout_day now loc e login att) = totalBreakTime att"
  using assms by (simp_all add: checkout_day_def Let_def split: option.splits)

lemma checkout_day_open:
  assumes "find is_open (breaks att) = Some b"
  shows "breaks (checkout_day now loc e login att) = breaks (end_ongoing_break now att)"
    and "totalBreakTime (checkout_day now loc e login att)
         = totalBreakTime (end_ongoing_break now att)"
  using assms by (simp_all add: checkout_day_def Let_def split: option.splits)

lemma logoutTime_checkout_day [simp]:
  "logoutTime (checkout_day now loc e login att) = Some now"
  by (simp add: checkout_day_def Let_def split: option.splits)

lemma day_inv_checkout_day:
  assumes "day_inv att"
  shows "day_inv (checkout_day now loc e login att)"
proof (cases "find is_open (breaks att)")
  case None
  then show ?thesis
    using assms by (simp add: day_inv_def checkout_day_no_open find_open_None)
next
  case (Some b)
  then show ?thesis
    using day_inv_end_ongoing [OF assms, of now] no_open_end_ongoing [OF assms, of now]
    by (simp add: day_inv_def checkout_day_open)
qed

lemma emp_inv_checkin:
  assumes "emp_inv e" "checkin now loc w (Some e) = Inr e'"
  shows "emp_inv e'"
  using assms
  by (auto simp: checkin_def emp_inv_def Let_def day_inv_attendanceData day_inv_assign
      intro!: list_all_update_first split: if_splits option.splits)

lemma emp_inv_checkout:
  assumes "emp_inv e" "checkout now loc (Some e) = Inr e'"
  shows "emp_inv e'"
  using assms
  by (auto simp: checkout_def emp_inv_def day_inv_checkout_day
      intro!: list_all_update_first split: if_splits option.splits)

lemma emp_inv_break_end:
  assumes "emp_inv e" "break_end now (Some e) = Inr e'"
  shows "emp_inv e'"
  using assms
  by (auto simp: break_end_def emp_inv_def day_inv_end_ongoing
      intro!: list_all_update_first split: if_splits option.splits)

lemma find_SomeD: "find P xs = Some x \<Longrightarrow> x \<in> set xs \<and> P x"
  by (induction xs) (auto split: if_splits)

lemma list_all_update_first_found:
  "list_all Q xs \<Longrightarrow> find P xs = Some a \<Longrightarrow> Q (f a) \<Longrightarrow> list_all Q (update_first P f xs)"
  by (induction xs) (auto split: if_splits)

lemma emp_inv_break_start:
  assumes "emp_inv e" "break_start now ty (Some e) = Inr e'"
  shows "emp_inv e'"
proof -
  from assms(2) obtain att where
    f: "find (same_day now) (attendance e) = Some att"
    and g: "loginTime att \<noteq> None" "logoutTime att = None" "find is_open (breaks att) = None"
    and e': "e' = e\<lparr> attendance := update_first (same_day now)
                 (\<lambda>att. att\<lparr> breaks := breaks att @ [new_break now (body_type ty)] \<rparr>)
                 (attendance e) \<rparr>"
    by (auto simp: break_start_def Let_def split: if_splits option.splits)
  have "day_inv att"
    using assms(1) find_SomeD [OF f] by (auto simp: emp_inv_def list_all_iff)
  then show ?thesis
    using assms(1) f g unfolding e' emp_inv_def
    by (auto intro!: list_all_update_first_found [OF _ f] day_inv_push_break)
qed

lemma emp_inv_handle: "emp_inv e \<Longrightarrow> handle ev e = Inr e' \<Longrightarrow> emp_inv e'"
  by (cases ev) (auto intro: emp_inv_checkin emp_inv_checkout emp_inv_break_start emp_inv_break_end)

lemma emp_inv_run: "emp_inv e \<Longrightarrow> emp_inv (run e evs)"
  by (induction evs arbitrary: e) (auto split: sum.splits intro: emp_inv_handle)

lemma emp_inv_fresh: "attendance e = [] \<Longrightarrow> emp_inv e"
  by (simp add: emp_inv_def)

subsection \<open>Check-in\<close>

lemma same_day_midnight_fun: "same_day (midnight now) = same_day now"
  by (rule ext) (simp add: same_day_midnight)

lemma find_append_None: "find P xs = None \<Longrightarrow> find P (xs @ ys) = find P ys"
  by (induction xs) (auto split: if_splits)

lemma find_update_first_found:
  "find P xs = Some a \<Longrightarrow> P (f a) \<Longrightarrow> find P (update_first P f xs) = Some (f a)"
  by (induction xs) (auto split: if_splits)

lemma same_day_attendanceData: "same_day now (attendanceData now l w loc)"
  by (simp add: same_day_def attendanceData_def day_of_midnight)

lemma same_day_assign: "same_day now (assign_attendanceData now l w loc att)"
  by (simp add: same_day_def assign_attendanceData_def day_of_midnight)

lemma checkin_Inr:
  assumes "checkin now loc w (Some e) = Inr e'"
  shows "isActive e"
    and "find (same_day now) (attendance e') =
      Some (case find (same_day now) (attendance e) of
              None \<Rightarrow> attendanceData now (late_minutes now e) (body_workLocation w) loc
            | Some att \<Rightarrow> assign_attendanceData now (late_minutes now e) (body_workLocation w) loc att)"
    and "\<forall>att. find (same_day now) (attendance e) = Some att \<longrightarrow> loginTime att = None"
  using assms
  by (auto simp: checkin_def Let_def same_day_midnight_fun find_append_None
      find_update_first_found same_day_attendanceData same_day_assign body_workLocation_def
      split: if_splits option.splits)

text \<open>
  Claim C2. A successful check-in at wall-clock time \<open>now\<close> stores, in the record of that day,
  \<open>lateMinutes = max 0 (floor ((now - shiftStart) / 60 s))\<close>, where the shift starts at 09:00 of
  the day when the employee's start time is unset and at the set time otherwise; the stored
  status is \<open>Late\<close> exactly when \<open>lateMinutes > 15\<close>, and \<open>Present\<close> otherwise.
\<close>

theorem checkin_late_minutes:
  assumes "checkin now loc w (Some e) = Inr e'"
  shows "\<exists>att. find (same_day now) (attendance e') = Some att
           \<and> loginTime att = Some now
           \<and> lateMinutes att =
               (case shift_startTime (shiftTiming e) of
                  None \<Rightarrow> max 0 ((now - (midnight now + 9 * 3600000)) div 60000)
                | Some (h, m) \<Rightarrow>
                    max 0 ((now - (midnight now + h * 3600000 + m * 60000)) div 60000))
           \<and> (status att = Late) = (lateMinutes att > 15)
           \<and> (status att = Present) = (\<not> lateMinutes att > 15)"
proof -
  have mm: "midnight (midnight now) = midnight now"
    by (simp add: midnight_def msPerDay_def)
  have late: "late_minutes now e =
      (case shift_startTime (shiftTiming e) of
         None \<Rightarrow> max 0 ((now - (midnight now + 9 * 3600000)) div 60000)
       | Some (h, m) \<Rightarrow> max 0 ((now - (midnight now + h * 3600000 + m * 60000)) div 60000))"
    by (simp add: late_minutes_div setHours_def shift_start_def mm split: option.splits prod.splits)
  show ?thesis
    using checkin_Inr(2) [OF assms] late
    by (cases "find (same_day now) (attendance e)")
      (simp_all add: attendanceData_def assign_attendanceData_def checkin_status_def)
qed

lemma checkin_sample:
  "checkin 33600000 None None (Some sample_employee) =
     Inr (sample_employee\<lparr> attendance := [attendanceData 33600000 20 ''dining'' None],
                           lastLogin := Some 33600000 \<rparr>)"
  by (simp add: checkin_def sample_employee_def Let_def late_minutes_div body_workLocation_def
      setHours_def midnight_def msPerDay_def shift_start_def)

theorem checkin_late_minutes_witness:
  "\<exists>e'. checkin 33600000 None None (Some sample_employee) = Inr e'
     \<and> (\<exists>att. find (same_day 33600000) (attendance e') = Some att
           \<and> lateMinutes att = 20 \<and> status att = Late)"
proof -
  from checkin_late_minutes [OF checkin_sample]
  obtain att where
    "find (same_day 33600000)
       (attendance (sample_employee\<lparr> attendance := [attendanceData 33600000 20 ''dining'' None],
                           lastLogin := Some 33600000 \<rparr>)) = Some att"
    "lateMinutes att = (case shift_startTime (shiftTiming sample_employee) of
                  None \<Rightarrow> max 0 ((33600000 - (midnight 33600000 + 9 * 3600000)) div 60000)
                | Some (h, m) \<Rightarrow>
                    max 0 ((33600000 - (midnight 33600000 + h * 3600000 + m * 60000)) div 60000))"
    "(status att = Late) = (lateMinutes att > 15)"
    by blast
  then show ?thesis
    using checkin_sample
    by (simp add: sample_employee_def midnight_def msPerDay_def)
qed

subsection \<open>A check-in is not lost\<close>

lemma length_update_first [simp]: "length (update_first P f xs) = length xs"
  by (induction xs) auto

lemma find_append_Some: "find P xs = Some a \<Longrightarrow> find P (xs @ ys) = Some a"
  by (induction xs) (auto split: if_splits)

lemma find_update_first_cases:
  assumes "find Q xs = Some a" and "\<And>x. P x \<Longrightarrow> Q (f x) = Q x"
  shows "find Q (update_first P f xs) = Some a \<or> (P a \<and> find Q (update_first P f xs) = Some (f a))"
  using assms by (induction xs) (auto split: if_splits)

lemma same_day_assign_other:
  "same_day now x \<Longrightarrow> same_day d (assign_attendanceData now l w loc x) = same_day d x"
  by (simp add: same_day_def assign_attendanceData_def day_of_midnight)

lemma same_day_checkout_day [simp]:
  "same_day d (checkout_day now loc e login x) = same_day d x"
  by (simp add: same_day_def)

lemma same_day_end_ongoing [simp]: "same_day d (end_ongoing_break now x) = same_day d x"
  by (simp add: same_day_def)

lemma loginTime_end_ongoing [simp]: "loginTime (end_ongoing_break now x) = loginTime x"
  by (simp add: end_ongoing_break_def Let_def)

lemma loginTime_checkout_day [simp]: "loginTime (checkout_day now loc e login x) = loginTime x"
  by (simp add: checkout_day_def Let_def split: option.splits)

lemma checkin_keeps_login:
  assumes "checkin now loc w (Some e) = Inr e'"
    and "find (same_day d) (attendance e) = Some att" and "loginTime att \<noteq> None"
  shows "\<exists>att'. find (same_day d) (attendance e') = Some att' \<and> loginTime att' \<noteq> None"
proof (cases "find (same_day (midnight now)) (attendance e)")
  case None
  then have "attendance e' =
      attendance e @ [attendanceData now (late_minutes now e) (body_workLocation w) loc]"
    using assms(1) by (auto simp: checkin_def Let_def split: if_splits)
  then show ?thesis
    using assms(2,3) by (simp add: find_append_Some)
next
  case (Some x)
  then have e': "attendance e' = update_first (same_day (midnight now))
      (assign_attendanceData now (late_minutes now e) (body_workLocation w) loc) (attendance e)"
    using assms(1) by (auto simp: checkin_def Let_def split: if_splits)
  have "find (same_day d) (attendance e') = Some att
      \<or> (same_day (midnight now) att \<and> find (same_day d) (attendance e') =
          Some (assign_attendanceData now (late_minutes now e) (body_workLocation w) loc att))"
    unfolding e'
    by (rule find_update_first_cases [OF assms(2)])
      (simp add: same_day_midnight_fun same_day_assign_other)
  then show ?thesis
    using assms(3) by (auto simp: assign_attendanceData_def)
qed

lemma checkout_keeps_login:
  assumes "checkout now loc (Some e) = Inr e'"
    and "find (same_day d) (attendance e) = Some att" and "loginTime att \<noteq> None"
  shows "\<exists>att'. find (same_day d) (attendance e') = Some att' \<and> loginTime att' \<noteq> None"
proof -
  from assms(1) obtain login where e': "attendance e' =
      update_first (same_day (midnight now)) (checkout_day now loc e login) (attendance e)"
    by (auto simp: checkout_def split: option.splits if_splits)
  have "find (same_day d) (attendance e') = Some att
      \<or> (same_day (midnight now) att
          \<and> find (same_day d) (attendance e') = Some (checkout_day now loc e login att))"
    unfolding e' by (rule find_update_first_cases [OF assms(2)]) simp
  then show ?thesis
    using assms(3) by auto
qed

lemma break_start_keeps_login:
  assumes "break_start now ty (Some e) = Inr e'"
    and "find (same_day d) (attendance e) = Some att" and "loginTime att \<noteq> None"
  shows "\<exists>att'. find (same_day d) (attendance e') = Some att' \<and> loginTime att' \<noteq> None"
proof -
  from assms(1) obtain b where e': "attendance e' =
      update_first (same_day now) (\<lambda>att. att\<lparr> breaks := breaks att @ [b] \<rparr>) (attendance e)"
    by (auto simp: break_start_def Let_def split: option.splits if_splits)
  have "find (same_day d) (attendance e') = Some att
      \<or> (same_day now att
          \<and> find (same_day d) (attendance e') = Some (att\<lparr> breaks := breaks att @ [b] \<rparr>))"
    unfolding e' by (rule find_update_first_cases [OF assms(2)]) (simp add: same_day_def)
  then show ?thesis
    using assms(3) by auto
qed

lemma break_end_keeps_login:
  assumes "break_end now (Some e) = Inr e'"
    and "find (same_day d) (attendance e) = Some att" and "loginTime att \<noteq> None"
  shows "\<exists>att'. find (same_day d) (attendance e') = Some att' \<and> loginTime att' \<noteq> None"
proof -
  from assms(1) have e': "attendance e' =
      update_first (same_day now) (end_ongoing_break now) (attendance e)"
    by (auto simp: break_end_def split: option.splits if_splits)
  have "find (same_day d) (attendance e') = Some att
      \<or> (same_day now att
          \<and> find (same_day d) (attendance e') = Some (end_ongoing_break now att))"
    unfolding e' by (rule find_update_first_cases [OF assms(2)]) simp
  then show ?thesis
    using assms(3) by auto
qed

lemma handle_keeps_login:
  assumes "handle ev e = Inr e'"
    and "find (same_day d) (attendance e) = Some att" and "loginTime att \<noteq> None"
  shows "\<exists>att'. find (same_day d) (attendance e') = Some att' \<and> loginTime att' \<noteq> None"
  using assms
  by (cases ev)
    (auto dest: checkin_keeps_login checkout_keeps_login break_start_keeps_login
      break_end_keeps_login)

lemma run_keeps_login:
  assumes "find (same_day d) (attendance e) = Some att" and "loginTime att \<noteq> None"
  shows "\<exists>att'. find (same_day d) (attendance (run e evs)) = Some att' \<and> loginTime att' \<noteq> None"
  using assms
proof (induction evs arbitrary: e att)
  case Nil
  then show ?case by simp
next
  case (Cons ev evs)
  show ?case
  proof (cases "handle ev e")
    case (Inl err)
    then show ?thesis using Cons by simp
  next
    case (Inr e1)
    from handle_keeps_login [OF Inr Cons.prems] obtain a1 where
      "find (same_day d) (attendance e1) = Some a1" "loginTime a1 \<noteq> None" by blast
    from Cons.IH [OF this] show ?thesis using Inr by simp
  qed
qed

lemma isActive_handle: "handle ev e = Inr e' \<Longrightarrow> isActive e' = isActive e"
  by (cases ev)
    (auto simp: checkin_def checkout_def break_start_def break_end_def Let_def
      split: if_splits option.splits)

lemma isActive_run [simp]: "isActive (run e evs) = isActive e"
  by (induction evs arbitrary: e) (auto split: sum.splits dest: isActive_handle)

lemma checkin_rejects_logged_in:
  assumes "isActive e" "find (same_day now) (attendance e) = Some att" "loginTime att \<noteq> None"
  shows "checkin now loc w (Some e) = Inl AlreadyCheckedIn"
  using assms by (auto simp: checkin_def Let_def same_day_midnight_fun)

text \<open>
  Claim C6. After a successful check-in, every later check-in on the same calendar day is
  rejected with \<open>AlreadyCheckedIn\<close>, whatever break and other requests came in between (so in
  particular with no check-out in between), and the rejected request leaves the document,
  with its day record, as it was.
\<close>

theorem second_checkin_rejected:
  assumes "checkin now loc w (Some e) = Inr e1" and "day_of now' = day_of now"
  shows "checkin now' loc' w' (Some (run e1 evs)) = Inl AlreadyCheckedIn
       \<and> run (run e1 evs) [CheckIn now' loc' w'] = run e1 evs"
proof -
  have sd: "same_day now' = same_day now"
    using assms(2) by (rule_tac ext) (simp add: same_day_def)
  from checkin_Inr(2) [OF assms(1)] obtain a1 where
    a1: "find (same_day now) (attendance e1) = Some a1" "loginTime a1 \<noteq> None"
    by (cases "find (same_day now) (attendance e)")
      (auto simp: attendanceData_def assign_attendanceData_def)
  from run_keeps_login [OF a1] obtain a2 where
    a2: "find (same_day now) (attendance (run e1 evs)) = Some a2" "loginTime a2 \<noteq> None"
    by blast
  have act: "isActive (run e1 evs)"
    using checkin_Inr(1) [OF assms(1)] isActive_handle [of "CheckIn now loc w" e e1] assms(1)
    by simp
  have "checkin now' loc' w' (Some (run e1 evs)) = Inl AlreadyCheckedIn"
    using checkin_rejects_logged_in [OF act, of now' a2] a2 sd by simp
  then show ?thesis by simp
qed

theorem second_checkin_rejected_witness:
  "checkin 45000000 None None
     (Some (run (sample_employee\<lparr> attendance := [attendanceData 33600000 20 ''dining'' None],
                                  lastLogin := Some 33600000 \<rparr>)
                [BreakStart 43200000 (Some ''lunch'')])) = Inl AlreadyCheckedIn"
proof -
  have d: "day_of 45000000 = day_of 33600000"
    by (simp add: day_of_def msPerDay_def)
  from second_checkin_rejected [OF checkin_sample d] show ?thesis by blast
qed

subsection \<open>Check-in over an existing record\<close>

text \<open>
  Claim C8 says that a second check-in before any check-out succeeds and overwrites the open
  record. The handler rejects it: here the employee checks in at 09:20 and again at 10:00.
\<close>

theorem recheckin_counterexample:
  "checkin 33600000 None None (Some sample_employee) =
     Inr (sample_employee\<lparr> attendance := [attendanceData 33600000 20 ''dining'' None],
                           lastLogin := Some 33600000 \<rparr>)
   \<and> checkin 36000000 None None
       (Some (sample_employee\<lparr> attendance := [attendanceData 33600000 20 ''dining'' None],
                                lastLogin := Some 33600000 \<rparr>)) = Inl AlreadyCheckedIn"
  by (simp add: checkin_sample)
    (simp add: checkin_def sample_employee_def Let_def attendanceData_def same_day_def
      day_of_def midnight_def msPerDay_def)

text \<open>
  Claim C8, amended. A check-in on a day that already has a record overwrites that record
  (fresh login time, status, late minutes, an empty break list, no new record) only when the
  record has no login time; when it has one, the check-in is rejected with
  \<open>AlreadyCheckedIn\<close>, before a check-out as well as after it.
\<close>

theorem checkin_existing_record:
  assumes "isActive e" and "find (same_day now) (attendance e) = Some att"
  shows "(loginTime att \<noteq> None \<longrightarrow> checkin now loc w (Some e) = Inl AlreadyCheckedIn)
       \<and> (loginTime att = None \<longrightarrow>
            (\<exists>e'. checkin now loc w (Some e) = Inr e'
               \<and> length (attendance e') = length (attendance e)
               \<and> find (same_day now) (attendance e') =
                   Some (att\<lparr> date := midnight now, loginTime := Some now, isPresent := True,
                              status := (if late_minutes now e > 15 then Late else Present),
                              lateMinutes := late_minutes now e,
                              workLocation := body_workLocation w, checkInLocation := loc,
                              breaks := [], totalBreakTime := 0 \<rparr>)))"
proof (intro conjI impI)
  assume "loginTime att \<noteq> None"
  then show "checkin now loc w (Some e) = Inl AlreadyCheckedIn"
    using assms by (rule_tac checkin_rejects_logged_in)
next
  assume none: "loginTime att = None"
  let ?f = "assign_attendanceData now (late_minutes now e) (body_workLocation w) loc"
  have ok: "checkin now loc w (Some e) =
      Inr (e\<lparr> attendance := update_first (same_day (midnight now)) ?f (attendance e),
              lastLogin := Some now \<rparr>)"
    using assms none by (simp add: checkin_def Let_def same_day_midnight_fun)
  have "find (same_day now) (update_first (same_day now) ?f (attendance e)) = Some (?f att)"
    using assms(2) by (rule find_update_first_found) (rule same_day_assign)
  then show "\<exists>e'. checkin now loc w (Some e) = Inr e'
               \<and> length (attendance e') = length (attendance e)
               \<and> find (same_day now) (attendance e') =
                   Some (att\<lparr> date := midnight now, loginTime := Some now, isPresent := True,
                              status := (if late_minutes now e > 15 then Late else Present),
                              lateMinutes := late_minutes now e,
                              workLocation := body_workLocation w, checkInLocation := loc,
                              breaks := [], totalBreakTime := 0 \<rparr>)"
    unfolding ok
    by (simp add: same_day_midnight_fun assign_attendanceData_def checkin_status_def)
qed

theorem checkin_existing_record_witness:
  "checkin 36000000 None None
     (Some (sample_employee\<lparr> attendance := [attendanceData 33600000 20 ''dining'' None] \<rparr>))
     = Inl AlreadyCheckedIn
   \<and> (\<exists>e'. checkin 36000000 None None
        (Some (sample_employee\<lparr> attendance :=
           [(attendanceData 33600000 20 ''dining'' None)\<lparr> loginTime := None \<rparr>] \<rparr>)) = Inr e'
        \<and> length (attendance e') = 1)"
proof -
  let ?a = "attendanceData 33600000 20 ''dining'' None"
  have act: "isActive (sample_employee\<lparr> attendance := [x] \<rparr>)" for x
    by (simp add: sample_employee_def)
  have f: "find (same_day 36000000) (attendance (sample_employee\<lparr> attendance := [x] \<rparr>)) = Some x"
    if "date x = 0" for x
    using that by (simp add: same_day_def day_of_def msPerDay_def)
  have d: "date ?a = 0" "date (?a\<lparr> loginTime := None \<rparr>) = 0"
    by (simp_all add: attendanceData_def midnight_def msPerDay_def)
  from checkin_existing_record [OF act f [OF d(1)], of None None]
    checkin_existing_record [OF act f [OF d(2)], of None None]
  show ?thesis
    by (auto simp: attendanceData_def)
qed

subsection \<open>What a successful request saves\<close>

lemma checkout_Inr:
  assumes "checkout now loc (Some e) = Inr e'"
  shows "\<exists>att login. find (same_day now) (attendance e) = Some att
           \<and> loginTime att = Some login \<and> logoutTime att = None
           \<and> e' = e\<lparr> attendance := update_first (same_day now)
                       (checkout_day now loc e login) (attendance e) \<rparr>
           \<and> find (same_day now) (attendance e') = Some (checkout_day now loc e login att)"
proof -
  from assms obtain att login where
    a: "find (same_day now) (attendance e) = Some att" "loginTime att = Some login"
       "logoutTime att = None"
    and e': "e' = e\<lparr> attendance := update_first (same_day now)
                       (checkout_day now loc e login) (attendance e) \<rparr>"
    by (auto simp: checkout_def same_day_midnight_fun split: option.splits if_splits)
  have "find (same_day now) (attendance e') = Some (checkout_day now loc e login att)"
    unfolding e' using a(1) find_SomeD [OF a(1)]
    by (simp add: find_update_first_found)
  with a e' show ?thesis by blast
qed

lemma checkout_success:
  assumes "find (same_day now) (attendance e) = Some att"
    and "loginTime att = Some login" and "logoutTime att = None"
  shows "checkout now loc (Some e) =
      Inr (e\<lparr> attendance := update_first (same_day now)
                 (checkout_day now loc e login) (attendance e) \<rparr>)"
  using assms by (simp add: checkout_def same_day_midnight_fun)

lemma break_start_success:
  assumes "find (same_day now) (attendance e) = Some att"
    and "loginTime att \<noteq> None" and "logoutTime att = None"
    and "find is_open (breaks att) = None"
    and "body_type ty \<in> set validBreakTypes"
  shows "\<exists>e'. break_start now ty (Some e) = Inr e'
           \<and> find (same_day now) (attendance e') =
               Some (att\<lparr> breaks := breaks att @ [new_break now (body_type ty)] \<rparr>)"
proof -
  let ?f = "\<lambda>att. att\<lparr> breaks := breaks att @ [new_break now (body_type ty)] \<rparr>"
  have "break_start now ty (Some e) =
      Inr (e\<lparr> attendance := update_first (same_day now) ?f (attendance e) \<rparr>)"
    using assms by (auto simp: break_start_def Let_def)
  moreover have "find (same_day now) (update_first (same_day now) ?f (attendance e))
      = Some (?f att)"
    using assms(1) find_SomeD [OF assms(1)]
    by (intro find_update_first_found) (simp_all add: same_day_def)
  ultimately show ?thesis by simp
qed

lemma break_end_success:
  assumes "find (same_day now) (attendance e) = Some att"
    and "find is_open (breaks att) \<noteq> None"
  shows "\<exists>e'. break_end now (Some e) = Inr e'
           \<and> find (same_day now) (attendance e') = Some (end_ongoing_break now att)"
proof -
  have "break_end now (Some e) =
      Inr (e\<lparr> attendance := update_first (same_day now) (end_ongoing_break now) (attendance e) \<rparr>)"
    using assms by (auto simp: break_end_def)
  moreover have "find (same_day now)
      (update_first (same_day now) (end_ongoing_break now) (attendance e))
      = Some (end_ongoing_break now att)"
    using assms(1) find_SomeD [OF assms(1)]
    by (intro find_update_first_found) simp_all
  ultimately show ?thesis by simp
qed

lemma break_end_Inr:
  assumes "break_end now (Some e) = Inr e'"
  shows "\<exists>att. find (same_day now) (attendance e) = Some att
           \<and> find is_open (breaks att) \<noteq> None
           \<and> find (same_day now) (attendance e') = Some (end_ongoing_break now att)"
proof -
  from assms obtain att where
    a: "find (same_day now) (attendance e) = Some att" "find is_open (breaks att) \<noteq> None"
    by (auto simp: break_end_def split: option.splits if_splits)
  from break_end_success [OF a] assms a show ?thesis by auto
qed

lemma day_inv_found:
  "emp_inv e \<Longrightarrow> find P (attendance e) = Some att \<Longrightarrow> day_inv att"
  using find_SomeD [of P "attendance e" att] by (auto simp: emp_inv_def list_all_iff)

subsection \<open>The guards of the transitions\<close>

text \<open>
  Claim C7 says that ending a break when none is open fails with \<open>NoOpenBreak\<close>. For an
  employee with no record for the day, no break is open, and the handler answers 'No
  attendance record found for today' instead.
\<close>

theorem break_end_no_record_counterexample:
  "attendance sample_employee = []
   \<and> break_end 36000000 (Some sample_employee) = Inl NoAttendanceRecord
   \<and> break_end 36000000 (Some sample_employee) \<noteq> Inl NoOpenBreak"
  by (simp add: break_end_def sample_employee_def)

text \<open>
  Claim C7, amended. On a document whose day records are well formed, each guarded transition
  fails with its named error exactly when its guard is violated, and a failing request saves
  nothing: check-out fails with \<open>NotCheckedIn\<close> exactly when the day has no record or the
  record has no login time, and with \<open>AlreadyCheckedOut\<close> exactly when the record has a login
  and a logout time, so a second check-out on the day of a successful one fails with it;
  starting a break (of a valid type) fails with \<open>BreakInProgress\<close> exactly when the day's record
  has an open break; ending a break fails with \<open>NoOpenBreak\<close> exactly when the day has a record
  with no open break, and with \<open>NoAttendanceRecord\<close> exactly when the day has no record.
\<close>

theorem guarded_transitions:
  assumes "emp_inv e" and "body_type ty \<in> set validBreakTypes"
  shows "(checkout now loc (Some e) = Inl NotCheckedIn)
           = (case find (same_day now) (attendance e) of
                None \<Rightarrow> True | Some att \<Rightarrow> loginTime att = None)
       \<and> (checkout now loc (Some e) = Inl AlreadyCheckedOut)
           = (\<exists>att. find (same_day now) (attendance e) = Some att
                \<and> loginTime att \<noteq> None \<and> logoutTime att \<noteq> None)
       \<and> (\<forall>e' now' loc'. checkout now loc (Some e) = Inr e' \<and> day_of now' = day_of now
             \<longrightarrow> checkout now' loc' (Some e') = Inl AlreadyCheckedOut)
       \<and> (break_start now ty (Some e) = Inl BreakInProgress)
           = (\<exists>att. find (same_day now) (attendance e) = Some att
                \<and> find is_open (breaks att) \<noteq> None)
       \<and> (break_end now (Some e) = Inl NoOpenBreak)
           = (\<exists>att. find (same_day now) (attendance e) = Some att
                \<and> find is_open (breaks att) = None)
       \<and> (break_end now (Some e) = Inl NoAttendanceRecord)
           = (find (same_day now) (attendance e) = None)"
proof (intro conjI)
  show "(checkout now loc (Some e) = Inl NotCheckedIn)
           = (case find (same_day now) (attendance e) of
                None \<Rightarrow> True | Some att \<Rightarrow> loginTime att = None)"
    by (auto simp: checkout_def same_day_midnight_fun split: option.splits)
  show "(checkout now loc (Some e) = Inl AlreadyCheckedOut)
           = (\<exists>att. find (same_day now) (attendance e) = Some att
                \<and> loginTime att \<noteq> None \<and> logoutTime att \<noteq> None)"
    by (auto simp: checkout_def same_day_midnight_fun split: option.splits)
  show "\<forall>e' now' loc'. checkout now loc (Some e) = Inr e' \<and> day_of now' = day_of now
             \<longrightarrow> checkout now' loc' (Some e') = Inl AlreadyCheckedOut"
  proof (intro allI impI, elim conjE)
    fix e' now' loc'
    assume ok: "checkout now loc (Some e) = Inr e'" and d: "day_of now' = day_of now"
    have sd: "same_day now' = same_day now"
      using d by (rule_tac ext) (simp add: same_day_def)
    from checkout_Inr [OF ok] obtain att login where
      "loginTime att = Some login"
      "find (same_day now) (attendance e') = Some (checkout_day now loc e login att)"
      by blast
    then show "checkout now' loc' (Some e') = Inl AlreadyCheckedOut"
      by (simp add: checkout_def same_day_midnight_fun sd)
  qed
  show "(break_start now ty (Some e) = Inl BreakInProgress)
           = (\<exists>att. find (same_day now) (attendance e) = Some att
                \<and> find is_open (breaks att) \<noteq> None)"
  proof
    assume "break_start now ty (Some e) = Inl BreakInProgress"
    then show "\<exists>att. find (same_day now) (attendance e) = Some att
                \<and> find is_open (breaks att) \<noteq> None"
      by (auto simp: break_start_def Let_def split: option.splits if_splits)
  next
    assume "\<exists>att. find (same_day now) (attendance e) = Some att
                \<and> find is_open (breaks att) \<noteq> None"
    then obtain att where a: "find (same_day now) (attendance e) = Some att"
      "find is_open (breaks att) \<noteq> None" by blast
    from day_inv_found [OF assms(1) a(1)] a(2)
    have "loginTime att \<noteq> None" "logoutTime att = None"
      by (simp_all add: day_inv_def find_open_None)
    then show "break_start now ty (Some e) = Inl BreakInProgress"
      using a assms(2) by (auto simp: break_start_def Let_def)
  qed
  show "(break_end now (Some e) = Inl NoOpenBreak)
           = (\<exists>att. find (same_day now) (attendance e) = Some att
                \<and> find is_open (breaks att) = None)"
    by (auto simp: break_end_def split: option.splits)
  show "(break_end now (Some e) = Inl NoAttendanceRecord)
           = (find (same_day now) (attendance e) = None)"
    by (auto simp: break_end_def split: option.splits)
qed


lemma sample_on_break:
  "run sample_employee [CheckIn 33600000 None None, BreakStart 43200000 (Some ''lunch'')] =
     sample_employee\<lparr> attendance :=
        [(attendanceData 33600000 20 ''dining'' None)\<lparr> breaks := [new_break 43200000 ''lunch''] \<rparr>],
        lastLogin := Some 33600000 \<rparr>"
  by (simp add: checkin_sample)
    (simp add: break_start_def body_type_def validBreakTypes_def attendanceData_def
      same_day_def day_of_def midnight_def msPerDay_def)

theorem guarded_transitions_witness:
  "break_start 43800000 (Some ''tea'')
     (Some (run sample_employee
        [CheckIn 33600000 None None, BreakStart 43200000 (Some ''lunch'')])) = Inl BreakInProgress
   \<and> break_end 43800000
     (Some (run sample_employee
        [CheckIn 33600000 None None, BreakStart 43200000 (Some ''lunch'')])) \<noteq> Inl NoOpenBreak
   \<and> checkout 43800000 None
     (Some (run sample_employee
        [CheckIn 33600000 None None, BreakStart 43200000 (Some ''lunch'')])) \<noteq> Inl NotCheckedIn"
proof -
  let ?e = "run sample_employee [CheckIn 33600000 None None, BreakStart 43200000 (Some ''lunch'')]"
  have inv: "emp_inv ?e"
    by (rule emp_inv_run) (simp add: emp_inv_def sample_employee_def)
  have ty: "body_type (Some ''tea'') \<in> set validBreakTypes"
    by (simp add: body_type_def validBreakTypes_def)
  have f: "find (same_day 43800000) (attendance ?e) =
      Some ((attendanceData 33600000 20 ''dining'' None)\<lparr> breaks := [new_break 43200000 ''lunch''] \<rparr>)"
    unfolding sample_on_break
    by (simp add: attendanceData_def same_day_def day_of_def midnight_def msPerDay_def)
  from guarded_transitions [OF inv ty, of 43800000 None] show ?thesis
    unfolding f by (simp add: attendanceData_def new_break_def is_open_def)
qed

subsection \<open>Deactivated employees\<close>

lemma update_first_changes:
  "find P xs \<noteq> None \<Longrightarrow> (\<And>x. P x \<Longrightarrow> \<not> P (f x)) \<Longrightarrow> update_first P f xs \<noteq> xs"
proof (induction xs)
  case Nil
  then show ?case by simp
next
  case (Cons a xs)
  show ?case
  proof (cases "P a")
    case True
    with Cons.prems(2) [of a] have "f a \<noteq> a" by auto
    with True show ?thesis by simp
  next
    case False
    with Cons show ?thesis by simp
  qed
qed

lemma end_ongoing_changes:
  assumes "find is_open (breaks att) \<noteq> None"
  shows "end_ongoing_break now att \<noteq> att"
proof
  assume "end_ongoing_break now att = att"
  then have "breaks (end_ongoing_break now att) = breaks att" by simp
  then have "update_first is_open (end_break now) (breaks att) = breaks att"
    by (simp add: end_ongoing_break_def Let_def)
  with update_first_changes [OF assms, of "end_break now"] show False
    by (simp add: not_open_end_break)
qed

text \<open>
  Claim C10. Only check-in looks at \<open>isActive\<close>. For a deactivated employee whose record of
  the day is open (a login time and no logout time), check-in is refused with
  \<open>InactiveEmployee\<close>, while check-out succeeds and sets the logout time, starting a break (of
  a valid type, none being open) succeeds and appends the break, and ending the open break
  succeeds and changes the record. Check-out, break-start and break-end never answer
  \<open>InactiveEmployee\<close>, whatever they are given.
\<close>

theorem inactive_employee_transitions:
  assumes "\<not> isActive e" and "find (same_day now) (attendance e) = Some att"
    and "loginTime att = Some login" and "logoutTime att = None"
  shows "checkin now loc w (Some e) = Inl InactiveEmployee
       \<and> (\<exists>e' att'. checkout now loc (Some e) = Inr e'
            \<and> find (same_day now) (attendance e') = Some att'
            \<and> logoutTime att' = Some now \<and> att' \<noteq> att)
       \<and> (find is_open (breaks att) = None \<and> body_type ty \<in> set validBreakTypes \<longrightarrow>
            (\<exists>e'. break_start now ty (Some e) = Inr e'
               \<and> find (same_day now) (attendance e') =
                   Some (att\<lparr> breaks := breaks att @ [new_break now (body_type ty)] \<rparr>)))
       \<and> (find is_open (breaks att) \<noteq> None \<longrightarrow>
            (\<exists>e'. break_end now (Some e) = Inr e'
               \<and> find (same_day now) (attendance e') = Some (end_ongoing_break now att)
               \<and> end_ongoing_break now att \<noteq> att))
       \<and> (\<forall>found now' loc' ty'.
            checkout now' loc' found \<noteq> Inl InactiveEmployee
            \<and> break_start now' ty' found \<noteq> Inl InactiveEmployee
            \<and> break_end now' found \<noteq> Inl InactiveEmployee)"
proof (intro conjI impI allI)
  show "checkin now loc w (Some e) = Inl InactiveEmployee"
    using assms(1) by (simp add: checkin_def)
  show "\<exists>e' att'. checkout now loc (Some e) = Inr e'
            \<and> find (same_day now) (attendance e') = Some att'
            \<and> logoutTime att' = Some now \<and> att' \<noteq> att"
  proof -
    from checkout_success [OF assms(2-4), of loc] obtain e' where
      ok: "checkout now loc (Some e) = Inr e'" by blast
    from checkout_Inr [OF ok] assms(2,3) have
      "find (same_day now) (attendance e') = Some (checkout_day now loc e login att)"
      by auto
    moreover have "checkout_day now loc e login att \<noteq> att"
    proof
      assume "checkout_day now loc e login att = att"
      then have "logoutTime (checkout_day now loc e login att) = logoutTime att" by simp
      with assms(4) show False by simp
    qed
    ultimately show ?thesis using ok by auto
  qed
  show "\<exists>e'. break_start now ty (Some e) = Inr e'
               \<and> find (same_day now) (attendance e') =
                   Some (att\<lparr> breaks := breaks att @ [new_break now (body_type ty)] \<rparr>)"
    if "find is_open (breaks att) = None \<and> body_type ty \<in> set validBreakTypes"
    using that assms(3,4) by (intro break_start_success [OF assms(2)]) simp_all
  show "\<exists>e'. break_end now (Some e) = Inr e'
               \<and> find (same_day now) (attendance e') = Some (end_ongoing_break now att)
               \<and> end_ongoing_break now att \<noteq> att"
    if "find is_open (breaks att) \<noteq> None"
    using break_end_success [OF assms(2) that] end_ongoing_changes [OF that, of now] by auto
  show "checkout now' loc' found \<noteq> Inl InactiveEmployee" for now' loc' found
    by (simp add: checkout_def split: option.splits)
  show "break_start now' ty' found \<noteq> Inl InactiveEmployee" for now' ty' found
    by (simp add: break_start_def Let_def split: option.splits)
  show "break_end now' found \<noteq> Inl InactiveEmployee" for now' found
    by (simp add: break_end_def split: option.splits)
qed

theorem inactive_employee_transitions_witness:
  "checkin 45000000 None None
     (Some (sample_employee\<lparr> isActive := False, attendance :=
        [(attendanceData 33600000 20 ''dining'' None)\<lparr> breaks := [new_break 43200000 ''lunch''] \<rparr>]
      \<rparr>)) = Inl InactiveEmployee
   \<and> (\<exists>e'. checkout 45000000 None
     (Some (sample_employee\<lparr> isActive := False, attendance :=
        [(attendanceData 33600000 20 ''dining'' None)\<lparr> breaks := [new_break 43200000 ''lunch''] \<rparr>]
      \<rparr>)) = Inr e')
   \<and> (\<exists>e'. break_end 45000000
     (Some (sample_employee\<lparr> isActive := False, attendance :=
        [(attendanceData 33600000 20 ''dining'' None)\<lparr> breaks := [new_break 43200000 ''lunch''] \<rparr>]
      \<rparr>)) = Inr e')"
proof -
  let ?a = "(attendanceData 33600000 20 ''dining'' None)\<lparr> breaks := [new_break 43200000 ''lunch''] \<rparr>"
  let ?e = "sample_employee\<lparr> isActive := False, attendance := [?a] \<rparr>"
  have 1: "\<not> isActive ?e" by simp
  have 2: "find (same_day 45000000) (attendance ?e) = Some ?a"
    by (simp add: attendanceData_def same_day_def day_of_def midnight_def msPerDay_def)
  have 3: "loginTime ?a = Some 33600000" by (simp add: attendanceData_def)
  have 4: "logoutTime ?a = None" by (simp add: attendanceData_def)
  have 5: "find is_open (breaks ?a) \<noteq> None" by (simp add: new_break_def is_open_def)
  from inactive_employee_transitions [OF 1 2 3 4, of None None] 5 show ?thesis
    by blast
qed

subsection \<open>Evaluating roundings and sample runs\<close>

lemma floor_rat_numeral [simp]:
  "\<lfloor>numeral a / numeral b :: rat\<rfloor> = numeral a div numeral b"
  by (metis floor_divide_of_int_eq of_int_numeral)

lemma floor_rat_neg_numeral [simp]:
  "\<lfloor>- (numeral a / numeral b) :: rat\<rfloor> = - numeral a div numeral b"
  by (metis divide_minus_left floor_divide_of_int_eq of_int_neg_numeral of_int_numeral)

lemma early_leave_div:
  "early_leave_minutes now e = max 0 ((setHours (midnight now) (shift_end e) - now) div 60000)"
proof -
  have "\<lfloor>(of_int (setHours (midnight now) (shift_end e) - now) :: rat) / (1000 * 60)\<rfloor>
        = \<lfloor>(of_int (setHours (midnight now) (shift_end e) - now) :: rat) / of_int 60000\<rfloor>"
    by simp
  also have "\<dots> = (setHours (midnight now) (shift_end e) - now) div 60000"
    by (rule floor_divide_of_int_eq)
  finally show ?thesis by (simp add: early_leave_minutes_def)
qed




subsection \<open>Break totals\<close>

lemma checkout_day_breaks:
  "breaks (checkout_day now loc e login att) = update_first is_open (end_break now) (breaks att)"
proof (cases "find is_open (breaks att)")
  case None
  then show ?thesis
    by (simp add: checkout_day_no_open update_first_no_match)
next
  case (Some b)
  then show ?thesis
    by (simp add: checkout_day_open end_ongoing_break_def Let_def)
qed

lemma day_inv_closed:
  "day_inv att \<Longrightarrow> logoutTime att \<noteq> None \<Longrightarrow> filter is_open (breaks att) = []"
  by (auto simp: day_inv_def)

text \<open>
  Claim C3. Start from a document whose day records are well formed (one without records,
  say) and let any requests follow. After a break-end that succeeds, and after a check-out
  that succeeds, the record of the day has \<open>totalBreakTime\<close> equal to the sum of the durations
  of its closed breaks, however many there are, and every closed break has a duration. The
  check-out first closes the break that is still open, with the check-out time as its end and
  \<open>round ((endTime - startTime) / 60 s)\<close> as its duration, and leaves no break open.
\<close>

theorem total_break_time_sum:
  assumes "emp_inv e0" and "e = run e0 evs"
  shows "(break_end now (Some e) = Inr e' \<longrightarrow>
           (\<exists>att'. find (same_day now) (attendance e') = Some att'
              \<and> totalBreakTime att' = closed_break_sum (breaks att')
              \<and> list_all break_wf (breaks att')))
       \<and> (checkout now loc (Some e) = Inr e'' \<longrightarrow>
           (\<exists>att att''. find (same_day now) (attendance e) = Some att
              \<and> find (same_day now) (attendance e'') = Some att''
              \<and> breaks att'' =
                  update_first is_open
                    (\<lambda>b. b\<lparr> endTime := Some now,
                            duration := Some \<lfloor>(of_int (now - startTime b) :: rat) / 60000 + 1 / 2\<rfloor> \<rparr>)
                    (breaks att)
              \<and> filter is_open (breaks att'') = []
              \<and> totalBreakTime att'' = closed_break_sum (breaks att'')
              \<and> list_all break_wf (breaks att'')))"
proof (intro conjI impI)
  have inv: "emp_inv e"
    unfolding assms(2) using assms(1) by (rule emp_inv_run)
  {
    assume ok: "break_end now (Some e) = Inr e'"
    from break_end_Inr [OF ok] obtain att where
      a: "find (same_day now) (attendance e) = Some att"
         "find (same_day now) (attendance e') = Some (end_ongoing_break now att)"
      by blast
    have "day_inv (end_ongoing_break now att)"
      using day_inv_found [OF inv a(1)] by (rule day_inv_end_ongoing)
    then show "\<exists>att'. find (same_day now) (attendance e') = Some att'
              \<and> totalBreakTime att' = closed_break_sum (breaks att')
              \<and> list_all break_wf (breaks att')"
      using a(2) by (auto simp: day_inv_def)
  }
  {
    assume ok: "checkout now loc (Some e) = Inr e''"
    from checkout_Inr [OF ok] obtain att login where
      a: "find (same_day now) (attendance e) = Some att"
         "find (same_day now) (attendance e'') = Some (checkout_day now loc e login att)"
      by blast
    have d: "day_inv (checkout_day now loc e login att)"
      using day_inv_found [OF inv a(1)] by (rule day_inv_checkout_day)
    have c: "filter is_open (breaks (checkout_day now loc e login att)) = []"
      using d by (rule day_inv_closed) simp
    have eb: "end_break now =
        (\<lambda>b. b\<lparr> endTime := Some now,
                duration := Some \<lfloor>(of_int (now - startTime b) :: rat) / 60000 + 1 / 2\<rfloor> \<rparr>)"
      by (rule ext) (simp add: end_break_def js_round_def)
    show "\<exists>att att''. find (same_day now) (attendance e) = Some att
              \<and> find (same_day now) (attendance e'') = Some att''
              \<and> breaks att'' =
                  update_first is_open
                    (\<lambda>b. b\<lparr> endTime := Some now,
                            duration := Some \<lfloor>(of_int (now - startTime b) :: rat) / 60000 + 1 / 2\<rfloor> \<rparr>)
                    (breaks att)
              \<and> filter is_open (breaks att'') = []
              \<and> totalBreakTime att'' = closed_break_sum (breaks att'')
              \<and> list_all break_wf (breaks att'')"
      using a c d checkout_day_breaks [of now loc e login att]
      unfolding eb [symmetric] by (auto simp: day_inv_def)
  }
qed

theorem total_break_time_sum_witness:
  "(\<exists>e' att'. break_end 45000000
        (Some (run sample_employee
           [CheckIn 33600000 None None, BreakStart 43200000 (Some ''lunch'')])) = Inr e'
      \<and> find (same_day 45000000) (attendance e') = Some att'
      \<and> totalBreakTime att' = closed_break_sum (breaks att'))
   \<and> (\<exists>e' att'. checkout 45000000 None
        (Some (run sample_employee
           [CheckIn 33600000 None None, BreakStart 43200000 (Some ''lunch'')])) = Inr e'
      \<and> find (same_day 45000000) (attendance e') = Some att'
      \<and> filter is_open (breaks att') = []
      \<and> totalBreakTime att' = closed_break_sum (breaks att'))"
proof -
  let ?e = "run sample_employee [CheckIn 33600000 None None, BreakStart 43200000 (Some ''lunch'')]"
  let ?a = "(attendanceData 33600000 20 ''dining'' None)\<lparr> breaks := [new_break 43200000 ''lunch''] \<rparr>"
  have inv: "emp_inv sample_employee"
    by (simp add: emp_inv_def sample_employee_def)
  have f: "find (same_day 45000000) (attendance ?e) = Some ?a"
    unfolding sample_on_break
    by (simp add: attendanceData_def same_day_def day_of_def midnight_def msPerDay_def)
  have op: "find is_open (breaks ?a) \<noteq> None"
    by (simp add: new_break_def is_open_def)
  from break_end_success [OF f op] obtain e1 where
    1: "break_end 45000000 (Some ?e) = Inr e1" by blast
  have "loginTime ?a = Some 33600000" "logoutTime ?a = None"
    by (simp_all add: attendanceData_def)
  from checkout_success [OF f this, of None] obtain e2 where
    2: "checkout 45000000 None (Some ?e) = Inr e2" by blast
  from total_break_time_sum [OF inv refl, of 45000000 _ e1 None e2] 1 2
  show ?thesis by blast
qed

subsection \<open>Evaluating double arithmetic\<close>

lemma floor_rat_one_div [simp]: "\<lfloor>1 / numeral b :: rat\<rfloor> = 1 div numeral b"
  by (metis floor_divide_of_int_eq of_int_1 of_int_numeral)

lemmas fl_eval =
  fl_def fl_pos_def scale_up.simps scale_down.simps round_half_even_def pow2_def
  dadd_def dsub_def dmul_def ddiv_def dround2_def js_round_def Let_def

lemma fl_tenth: "fl (1 / 10) = 3602879701896397 / 36028797018963968"
  by (simp add: fl_eval)

lemma dadd_tenths: "dadd (fl (1 / 10)) (fl (2 / 10)) \<noteq> fl (3 / 10)"
  by (simp add: fl_eval)

lemma dmul_tie_to_even: "dmul 80 (fl (7 / 10)) = 56"
  by (simp add: fl_eval)

lemma dmul_1000_60: "dmul 1000 60 = 60000"
  by (simp add: fl_eval)

subsection \<open>Rounding to a double: integers, halves and minutes\<close>

text \<open>
  The handlers divide a difference of two dates by \<^verbatim>\<open>1000 * 60\<close> and take \<^verbatim>\<open>Math.floor\<close> or
  \<^verbatim>\<open>Math.round\<close> of the quotient. The difference and the divisor are integers that a double
  holds exactly, the quotient is rounded once, and for a difference below \<open>2 ^ 53\<close> in absolute
  value the rounding cannot cross an integer or a half: the floor and the rounding of the
  double quotient are those of the exact quotient.
\<close>

lemma pow2_pos: "0 < pow2 e"
  by (simp add: pow2_def)

lemma pow2_0: "pow2 0 = 1"
  by (simp add: pow2_def)

lemma pow2_minus_nat: "pow2 (- int j) = 1 / 2 ^ j"
  by (simp add: pow2_def)

lemma pow2_nat: "pow2 (int j) = 2 ^ j"
  by (simp add: pow2_def)

lemma round_half_even_of_int: "round_half_even (of_int k) = k"
  by (simp add: round_half_even_def)

lemma round_half_even_error: "\<bar>of_int (round_half_even m) - m\<bar> \<le> 1 / 2"
proof -
  have "of_int \<lfloor>m\<rfloor> \<le> m" "m < of_int \<lfloor>m\<rfloor> + 1"
    by linarith+
  then show ?thesis
    by (auto simp: round_half_even_def Let_def abs_le_iff)
qed

lemma scale_up_spec:
  assumes "0 < m" and "- 1074 \<le> e"
  shows "\<exists>j. scale_up m e = (m * 2 ^ j, e - int j)
           \<and> - 1074 \<le> e - int j
           \<and> (2 ^ 52 \<le> m * 2 ^ j \<or> e - int j = - 1074)
           \<and> (m < 2 ^ 53 \<longrightarrow> m * 2 ^ j < 2 ^ 53)
           \<and> (m < 2 ^ 52 \<and> - 1074 < e \<longrightarrow> 0 < j)"
  using assms
proof (induction m e rule: scale_up.induct)
  case (1 m e)
  show ?case
  proof (cases "m < 2 ^ 52 \<and> - 1074 < e")
    case True
    then have "0 < m * 2" and "- 1074 \<le> e - 1"
      using "1.prems" by simp_all
    from "1.IH" [OF True this] obtain j where
      j: "scale_up (m * 2) (e - 1) = (m * 2 * 2 ^ j, e - 1 - int j)"
         "- 1074 \<le> e - 1 - int j"
         "2 ^ 52 \<le> m * 2 * 2 ^ j \<or> e - 1 - int j = - 1074"
         "m * 2 < 2 ^ 53 \<longrightarrow> m * 2 * 2 ^ j < 2 ^ 53"
      by blast
    have s: "scale_up m e = scale_up (m * 2) (e - 1)"
      using True by (subst scale_up.simps) simp
    have lt: "m * 2 < 2 ^ 53"
      using True by simp
    show ?thesis
      by (rule exI [of _ "Suc j"]) (use j s lt in \<open>simp add: mult.assoc\<close>)
  next
    case False
    then have s: "scale_up m e = (m, e)"
      by (subst scale_up.simps) auto
    show ?thesis
      by (rule exI [of _ 0]) (use False s "1.prems" in auto)
  qed
qed


lemma fl_pos_small:
  assumes "0 < x" and "x < 2 ^ 52"
  shows "\<exists>j. 0 < j \<and> fl_pos x = of_int (round_half_even (x * 2 ^ j)) / 2 ^ j
           \<and> (2 ^ 52 \<le> x * 2 ^ j \<or> j = 1074)"
proof -
  from scale_up_spec [of x 0] assms obtain j where
    j: "scale_up x 0 = (x * 2 ^ j, 0 - int j)" "2 ^ 52 \<le> x * 2 ^ j \<or> 0 - int j = - 1074" "0 < j"
    by auto
  have "fl_pos x = of_int (round_half_even (x * 2 ^ j)) / 2 ^ j"
    using assms j(1) by (simp add: fl_pos_def pow2_minus_nat)
  moreover have "2 ^ 52 \<le> x * 2 ^ j \<or> j = 1074"
    using j(2) by auto
  ultimately show ?thesis
    using j(3) by blast
qed

lemma fl_minus: "fl (- x) = - fl x"
  by (simp add: fl_def)

lemma fl_pos_half_int:
  assumes "0 < k" and "of_int k / 2 < (2::rat) ^ 52"
  shows "fl_pos (of_int k / 2) = of_int k / 2"
proof -
  from fl_pos_small [of "of_int k / 2"] assms obtain j where
    j: "0 < j" "fl_pos (of_int k / 2) = of_int (round_half_even (of_int k / 2 * 2 ^ j)) / 2 ^ j"
    by auto
  obtain i where i: "j = Suc i"
    using j(1) by (cases j) auto
  have e: "of_int k / 2 * (2::rat) ^ j = of_int (k * 2 ^ i)"
    by (simp add: i)
  have "fl_pos (of_int k / 2) = of_int (round_half_even (of_int (k * 2 ^ i))) / 2 ^ j"
    by (simp only: j(2) e)
  also have "\<dots> = of_int (k * 2 ^ i) / 2 ^ j"
    by (simp only: round_half_even_of_int)
  also have "\<dots> = of_int k / 2"
    by (simp add: i)
  finally show ?thesis .
qed

lemma fl_half_int:
  assumes "\<bar>of_int k / 2\<bar> < (2::rat) ^ 52"
  shows "fl (of_int k / 2) = of_int k / 2"
proof -
  consider "k = 0" | "0 < k" | "k < 0"
    by linarith
  then show ?thesis
  proof cases
    case 1
    then show ?thesis by (simp add: fl_def)
  next
    case 2
    then show ?thesis
      using assms fl_pos_half_int [of k] by (simp add: fl_def)
  next
    case 3
    then have "fl_pos (of_int (- k) / 2) = of_int (- k) / 2"
      using assms by (intro fl_pos_half_int) auto
    then show ?thesis
      using 3 by (simp add: fl_def)
  qed
qed

lemma fl_pos_large_int:
  assumes "2 ^ 52 \<le> k" and "k < 2 ^ 53"
  shows "fl_pos (of_int k) = of_int k"
proof -
  have ge: "(2::rat) ^ 52 \<le> of_int k"
    using assms(1) by (metis of_int_le_iff of_int_numeral of_int_power)
  have lt: "of_int k < (2::rat) ^ 53"
    using assms(2) by (metis of_int_less_iff of_int_numeral of_int_power)
  have "scale_down (of_int k) 0 = (of_int k, 0)"
    using lt by (subst scale_down.simps) simp
  then show ?thesis
    using ge by (simp add: fl_pos_def pow2_0 round_half_even_of_int)
qed

lemma fl_of_int:
  assumes "\<bar>k\<bar> < 2 ^ 53"
  shows "fl (of_int k) = of_int k"
proof (cases "\<bar>k\<bar> < 2 ^ 52")
  case True
  then have "(of_int \<bar>k\<bar> :: rat) < of_int (2 ^ 52)"
    by (simp only: of_int_less_iff)
  then have "\<bar>of_int (2 * k) / 2\<bar> < (2::rat) ^ 52"
    by simp
  from fl_half_int [OF this] show ?thesis
    by simp
next
  case False
  show ?thesis
  proof (cases "0 \<le> k")
    case True
    then show ?thesis
      using False assms fl_pos_large_int [of k] by (simp add: fl_def)
  next
    case neg: False
    then have "fl_pos (of_int (- k)) = of_int (- k)"
      using False assms by (intro fl_pos_large_int) auto
    then show ?thesis
      using neg by (simp add: fl_def)
  qed
qed


lemma fl_pos_error:
  assumes "1 / 2 ^ 1022 \<le> x" and "x < 2 ^ 52"
  shows "\<bar>fl_pos x - x\<bar> \<le> x / 2 ^ 53"
proof -
  have pos: "0 < x"
    using assms(1) by (rule less_le_trans [rotated]) simp
  from fl_pos_small [OF pos assms(2)] obtain j where
    j: "fl_pos x = of_int (round_half_even (x * 2 ^ j)) / 2 ^ j" "2 ^ 52 \<le> x * 2 ^ j \<or> j = 1074"
    by blast
  have big: "2 ^ 52 \<le> x * 2 ^ j"
  proof (cases "j = 1074")
    case True
    have "1 \<le> x * 2 ^ 1022"
      using assms(1) by (simp add: field_simps)
    then have "1 * 2 ^ 52 \<le> x * 2 ^ 1022 * 2 ^ 52"
      by (intro mult_right_mono) simp_all
    also have "x * 2 ^ 1022 * 2 ^ 52 = x * 2 ^ (1022 + 52)"
      by (simp only: power_add mult.assoc)
    finally show ?thesis
      using True by simp
  next
    case False
    then show ?thesis
      using j(2) by simp
  qed
  define m where "m = x * 2 ^ j"
  have "fl_pos x - x = (of_int (round_half_even m) - m) / 2 ^ j"
    by (simp add: j(1) m_def diff_divide_distrib)
  then have "\<bar>fl_pos x - x\<bar> = \<bar>of_int (round_half_even m) - m\<bar> / 2 ^ j"
    by simp
  also have "\<dots> \<le> (1 / 2) / 2 ^ j"
    by (intro divide_right_mono round_half_even_error) simp
  also have "\<dots> \<le> x / 2 ^ 53"
    using big by (simp add: field_simps)
  finally show ?thesis .
qed

lemma fl_quotient_error:
  assumes "d \<noteq> 0" and "\<bar>d\<bar> < 2 ^ 53"
  shows "\<bar>fl (of_int d / 60000) - of_int d / 60000\<bar> < 1 / 60000"
proof -
  define x :: rat where "x = of_int \<bar>d\<bar> / 60000"
  have "1 \<le> \<bar>d\<bar>"
    using assms(1) by simp
  then have "(1::rat) \<le> of_int \<bar>d\<bar>"
    by (simp only: of_int_1_le_iff)
  then have lo: "1 / 60000 \<le> x"
    by (simp add: x_def)
  have "(of_int \<bar>d\<bar> :: rat) < of_int (2 ^ 53)"
    using assms(2) by (simp only: of_int_less_iff)
  then have hi: "x < 2 ^ 53 / 60000"
    by (simp add: x_def)
  have "(1::rat) / 2 ^ 1022 \<le> 1 / 2 ^ 16"
    by (intro divide_left_mono power_increasing) simp_all
  also have "\<dots> \<le> x"
    using lo by simp
  finally have "\<bar>fl_pos x - x\<bar> \<le> x / 2 ^ 53"
    using hi by (intro fl_pos_error) simp_all
  also have "\<dots> < 1 / 60000"
    using hi by simp
  finally have err: "\<bar>fl_pos x - x\<bar> < 1 / 60000" .
  show ?thesis
  proof (cases "0 < d")
    case True
    then have "of_int d / 60000 = x" "0 < x"
      by (simp_all add: x_def)
    then show ?thesis
      using err by (simp add: fl_def)
  next
    case False
    then have "of_int d / 60000 = - x" "0 < x"
      using assms(1) by (simp_all add: x_def)
    then show ?thesis
      using err by (simp add: fl_def abs_minus_commute)
  qed
qed

lemma floor_near_grid:
  fixes y :: rat
  assumes "0 < c"
    and "\<bar>y - of_int n / of_int c\<bar> < 1 / of_int c"
    and "c dvd n \<Longrightarrow> y = of_int n / of_int c"
  shows "\<lfloor>y\<rfloor> = n div c"
proof (cases "c dvd n")
  case True
  then show ?thesis
    using assms(3) by (simp add: floor_divide_of_int_eq)
next
  case False
  define r where "r = n mod c"
  have "0 \<le> n mod c" "n mod c < c" "n mod c \<noteq> 0"
    using False assms(1) by (simp_all add: dvd_eq_mod_eq_0)
  then have r: "1 \<le> r" "r \<le> c - 1"
    unfolding r_def by linarith+
  have "n = (n div c) * c + r"
    by (simp add: r_def)
  then have "(of_int n :: rat) = of_int (n div c) * of_int c + of_int r"
    by (metis of_int_add of_int_mult)
  then have q: "of_int n / of_int c = (of_int (n div c) :: rat) + of_int r / of_int c"
    using assms(1) by (simp add: field_simps)
  have cpos: "(0::rat) < of_int c"
    using assms(1) by simp
  have "(of_int 1 :: rat) \<le> of_int r" "(of_int r :: rat) \<le> of_int (c - 1)"
    using r by (simp_all only: of_int_le_iff)
  then have "1 / of_int c \<le> of_int r / (of_int c :: rat)"
    "of_int r / (of_int c :: rat) \<le> 1 - 1 / of_int c"
    using cpos by (simp_all add: field_simps)
  then have "of_int (n div c) < y" "y < of_int (n div c) + 1"
    using assms(2) q by (simp_all add: abs_less_iff)
  then show ?thesis
    by (intro floor_unique) simp_all
qed


lemma fl_whole_minutes:
  assumes "\<bar>d\<bar> < 2 ^ 53" and "60000 dvd d"
  shows "fl (of_int d / 60000) = of_int d / 60000"
proof -
  from assms(2) obtain k where k: "d = 60000 * k" ..
  then have "\<bar>k\<bar> < 2 ^ 53"
    using assms(1) by simp
  from fl_of_int [OF this] show ?thesis
    by (simp add: k)
qed

lemma fl_half_minutes:
  assumes "\<bar>d\<bar> < 2 ^ 53" and "60000 dvd d + 30000"
  shows "fl (of_int d / 60000) = of_int d / 60000"
proof -
  from assms(2) obtain k where "d + 30000 = 60000 * k" ..
  then have k: "d = 30000 * (2 * k - 1)"
    by simp
  then have "\<bar>2 * k - 1\<bar> < 2 ^ 52"
    using assms(1) by simp
  then have "(of_int \<bar>2 * k - 1\<bar> :: rat) < of_int (2 ^ 52)"
    by (simp only: of_int_less_iff)
  then have "\<bar>of_int (2 * k - 1) / 2\<bar> < (2::rat) ^ 52"
    by simp
  from fl_half_int [OF this] have "fl (of_int (2 * k - 1) / 2) = of_int (2 * k - 1) / 2" .
  moreover have "(of_int d :: rat) / 60000 = of_int (2 * k - 1) / 2"
    by (simp add: k)
  ultimately show ?thesis
    by (simp only:)
qed

lemma floor_fl_minutes:
  assumes "\<bar>d\<bar> < 2 ^ 53"
  shows "\<lfloor>fl (of_int d / 60000)\<rfloor> = d div 60000"
proof (cases "d = 0")
  case True
  then show ?thesis
    by (simp add: fl_def)
next
  case False
  have "\<lfloor>fl (of_int d / of_int 60000)\<rfloor> = d div 60000"
  proof (rule floor_near_grid)
    show "\<bar>fl (of_int d / of_int 60000) - of_int d / of_int 60000\<bar> < 1 / of_int 60000"
      using fl_quotient_error [OF False assms] by simp
    show "fl (of_int d / of_int 60000) = of_int d / of_int 60000" if "60000 dvd d"
      using fl_whole_minutes [OF assms that] by simp
  qed simp
  then show ?thesis
    by simp
qed

lemma js_round_minutes: "js_round (of_int d / 60000) = (d + 30000) div 60000"
proof -
  have "(of_int d :: rat) / 60000 + 1 / 2 = of_int (d + 30000) / of_int 60000"
    by simp
  then show ?thesis
    unfolding js_round_def by (simp only: floor_divide_of_int_eq)
qed

lemma round_fl_minutes:
  assumes "\<bar>d\<bar> < 2 ^ 53"
  shows "js_round (fl (of_int d / 60000)) = js_round (of_int d / 60000)"
proof (cases "d = 0")
  case True
  then show ?thesis
    by (simp add: fl_def)
next
  case False
  have "\<lfloor>fl (of_int d / 60000) + 1 / 2\<rfloor> = (d + 30000) div 60000"
  proof (rule floor_near_grid)
    have "fl (of_int d / 60000) + 1 / 2 - of_int (d + 30000) / of_int 60000
          = fl (of_int d / 60000) - of_int d / 60000"
      by (simp add: add_divide_distrib)
    then show "\<bar>fl (of_int d / 60000) + 1 / 2 - of_int (d + 30000) / of_int 60000\<bar>
          < 1 / of_int 60000"
      using fl_quotient_error [OF False assms] by (simp only: of_int_numeral)
    show "fl (of_int d / 60000) + 1 / 2 = of_int (d + 30000) / of_int 60000"
      if "60000 dvd d + 30000"
      using fl_half_minutes [OF assms that] by simp
  qed simp
  then show ?thesis
    by (simp add: js_round_minutes) (simp add: js_round_def)
qed

lemma minutes_quotient:
  assumes "\<bar>a - b\<bar> < 2 ^ 53"
  shows "ddiv (dsub (of_int a) (of_int b)) (dmul 1000 60) = fl (of_int (a - b) / 60000)"
proof -
  have "dsub (of_int a) (of_int b) = fl (of_int (a - b))"
    by (simp add: dsub_def)
  also have "\<dots> = of_int (a - b)"
    using assms by (rule fl_of_int)
  finally show ?thesis
    by (simp only: ddiv_def dmul_1000_60)
qed

lemma late_minutes_double:
  assumes "\<bar>now - setHours (midnight now) (shift_start e)\<bar> < 2 ^ 53"
  shows "late_minutes now e =
    max 0 \<lfloor>ddiv (dsub (of_int now) (of_int (setHours (midnight now) (shift_start e))))
                 (dmul 1000 60)\<rfloor>"
  by (simp only: minutes_quotient [OF assms] floor_fl_minutes [OF assms] late_minutes_div)

lemma early_leave_minutes_double:
  assumes "\<bar>setHours (midnight now) (shift_end e) - now\<bar> < 2 ^ 53"
  shows "early_leave_minutes now e =
    max 0 \<lfloor>ddiv (dsub (of_int (setHours (midnight now) (shift_end e))) (of_int now))
                 (dmul 1000 60)\<rfloor>"
  by (simp only: minutes_quotient [OF assms] floor_fl_minutes [OF assms] early_leave_div)

lemma end_break_double:
  assumes "\<bar>now - startTime b\<bar> < 2 ^ 53"
  shows "end_break now b =
    b\<lparr> endTime := Some now,
       duration := Some (js_round (ddiv (dsub (of_int now) (of_int (startTime b)))
                                        (dmul 1000 60))) \<rparr>"
proof -
  have "(of_int (now - startTime b) :: rat) / (1000 * 60) = of_int (now - startTime b) / 60000"
    by simp
  then show ?thesis
    by (simp only: minutes_quotient [OF assms] round_fl_minutes [OF assms] end_break_def)
qed

subsection \<open>Check-out\<close>






text \<open>
  Two boundary cases of the double arithmetic. With a shift from 09:00 to 16:50, a check-in
  at 09:00 and a check-out at 17:20 with no break, the overtime is a little more than half an
  hour, so the status is \<open>Overtime\<close>. Nine hours and eighteen seconds of work are a little less
  than 9.005 hours and are stored as 9.
\<close>

lemma overtime_just_over_half_hour:
  "overtime_hours
     (sample_employee\<lparr> shiftTiming :=
        \<lparr> shift_startTime = Some (9, 0), shift_endTime = Some (16, 50) \<rparr> \<rparr>)
     (hours_worked 62400000 32400000 0) = 562949953421313 / 1125899906842624"
  "(1 / 2 :: rat) < 562949953421313 / 1125899906842624"
  by (simp_all add: overtime_hours_def hours_worked_def standardShiftHours_def shift_end_def
      shift_start_def fl_eval)

lemma hours_9005_stored_as_9: "dround2 (hours_worked 64818000 32400000 0) = 9"
  by (simp add: hours_worked_def fl_eval)


subsection \<open>Averages and scores\<close>

lemma three_days_in_range:
  "attendanceInRange 0 172800000 (attendance three_days_employee) =
     [worked_day 0 (7 / 2), worked_day 86400000 (7 / 2), worked_day 172800000 3]"
  by (simp add: attendanceInRange_def three_days_employee_def worked_day_def attendanceData_def
      midnight_def msPerDay_def)

lemma late_absent_in_range:
  "attendanceInRange 0 172800000 (attendance late_absent_employee) =
     [(worked_day 0 8)\<lparr> status := Late \<rparr>,
      (worked_day 86400000 0)\<lparr> isPresent := False, status := Late \<rparr>]"
  by (simp add: attendanceInRange_def late_absent_employee_def worked_day_def attendanceData_def
      midnight_def msPerDay_def)

lemma worked_day_fields [simp]:
  "isPresent (worked_day d h)" "hoursWorked (worked_day d h) = Some h"
  "overtimeHours (worked_day d h) = Some 0" "status (worked_day d h) = Present"
  "totalBreakTime (worked_day d h) = 0"
  by (simp_all add: worked_day_def attendanceData_def checkin_status_def)

text \<open>
  Some values of the scores on doubles: 23 days present of 40 are 57 percent, since
  \<^verbatim>\<open>23 / 40 * 100\<close> is a little less than 57.5; 40 days present with 51 late ones give the
  punctuality score -28; 2.01 hours over 2 days are 1 hour on average.
\<close>

lemma attendance_percentage_23_of_40: "attendance_percentage 23 17 = 57"
  by (simp add: attendance_percentage_def fl_eval)

lemma punctuality_score_40_51: "punctuality_score 40 51 0 = - 28"
  by (simp add: punctuality_score_def fl_eval)

lemma average_201_over_2: "dround2 (ddiv (fl (201 / 100)) 2) = 1"
  by (simp add: fl_eval)

lemma three_days_numbers:
  "dadd (dadd (dadd 0 (7 / 2)) (7 / 2)) 3 = 10"
  "dround2 (ddiv 10 3) = fl (333 / 100)"
  "fl (333 / 100) \<noteq> ddiv 10 3"
  "\<lfloor>dmul (ddiv 3 3) 100 + 1 / 2\<rfloor> = 100"
  "ddiv (of_int \<lfloor>dmul (ddiv 10 3) 100 + 1 / 2\<rfloor>) 100 = fl (333 / 100)"
  "\<lfloor>dmul (ddiv (- 1) 1) 100 + 1 / 2\<rfloor> = - 100"
  by (simp_all add: fl_eval)

text \<open>
  Claim C4 says that \<open>averageHours = totalHours / presentDays\<close>. The custom range report
  rounds the quotient to two decimals: three present days with 10 hours in all give 3.33.
\<close>

theorem average_hours_counterexample:
  "range_presentDays (range_attendance 0 172800000 three_days_employee) = 3
   \<and> reduce_hours hoursWorked (attendanceInRange 0 172800000 (attendance three_days_employee)) = 10
   \<and> averageHours (range_attendance 0 172800000 three_days_employee) = fl (333 / 100)
   \<and> averageHours (range_attendance 0 172800000 three_days_employee) \<noteq> ddiv 10 3"
proof -
  have "range_presentDays (range_attendance 0 172800000 three_days_employee) = 3"
    by (simp add: range_attendance_def three_days_in_range Let_def)
  moreover have "reduce_hours hoursWorked
      (attendanceInRange 0 172800000 (attendance three_days_employee)) = 10"
    by (simp add: three_days_in_range reduce_hours_def or_0_def three_days_numbers)
  moreover have "averageHours (range_attendance 0 172800000 three_days_employee)
      = dround2 (ddiv 10 3)"
    by (simp add: range_attendance_def three_days_in_range Let_def reduce_hours_def or_0_def
        three_days_numbers)
  ultimately show ?thesis
    by (simp only: three_days_numbers simp_thms)
qed

text \<open>
  Claim C4, amended. Over the day records of a date range, with \<open>presentDays\<close>, \<open>absentDays\<close>,
  \<open>lateCount\<close> and \<open>earlyLeaveCount\<close> the numbers of records that are present, not present,
  late and early-leave, and \<open>totalHours\<close> the sum of the hours worked, all arithmetic being the
  one on doubles:
  \<open>punctualityScore = round ((presentDays - lateCount - earlyLeaveCount) / presentDays * 100)\<close>
  when \<open>presentDays > 0\<close> and 0 otherwise, with no clamp;
  \<open>attendancePercentage = round (presentDays / (presentDays + absentDays) * 100)\<close>, 0 when the
  denominator is 0;
  \<open>averageHours = round (totalHours / presentDays * 100) / 100\<close> when \<open>presentDays > 0\<close> and 0
  otherwise; with no present day all three are 0.
\<close>

theorem period_statistics:
  "let inRange = attendanceInRange start fin (attendance emp);
       presentDays = length (filter isPresent inRange);
       absentDays = length (filter (\<lambda>att. \<not> isPresent att) inRange);
       lateCount = length (filter (\<lambda>att. status att = Late) inRange);
       earlyLeaveCount = length (filter (\<lambda>att. status att = EarlyLeave) inRange);
       totalHours =
         foldl (\<lambda>acc att. dadd acc (case hoursWorked att of Some h \<Rightarrow> h | None \<Rightarrow> 0)) 0 inRange;
       d = employeeDetail start fin emp;
       r = range_attendance start fin emp
   in detail_punctualityScore d =
        (if presentDays > 0
         then \<lfloor>dmul (ddiv (of_int (int presentDays - int lateCount - int earlyLeaveCount))
                           (of_nat presentDays)) 100 + 1 / 2\<rfloor>
         else 0)
    \<and> detail_attendancePercentage d =
        (if presentDays + absentDays > 0
         then \<lfloor>dmul (ddiv (of_nat presentDays) (of_nat (presentDays + absentDays))) 100 + 1 / 2\<rfloor>
         else 0)
    \<and> averageHours r =
        (if presentDays > 0
         then ddiv (of_int \<lfloor>dmul (ddiv totalHours (of_nat presentDays)) 100 + 1 / 2\<rfloor>) 100
         else 0)
    \<and> (presentDays = 0 \<longrightarrow>
         detail_attendancePercentage d = 0 \<and> detail_punctualityScore d = 0 \<and> averageHours r = 0)"
proof -
  define inRange where "inRange = attendanceInRange start fin (attendance emp)"
  define p where "p = length (filter isPresent inRange)"
  define a where "a = length (filter (\<lambda>att. \<not> isPresent att) inRange)"
  define l where "l = length (filter (\<lambda>att. status att = Late) inRange)"
  define el where "el = length (filter (\<lambda>att. status att = EarlyLeave) inRange)"
  define total where "total =
    foldl (\<lambda>acc att. dadd acc (case hoursWorked att of Some h \<Rightarrow> h | None \<Rightarrow> 0)) 0 inRange"
  have punct: "detail_punctualityScore (employeeDetail start fin emp) = punctuality_score p l el"
    by (simp add: employeeDetail_def Let_def p_def l_def el_def inRange_def)
  have att: "detail_attendancePercentage (employeeDetail start fin emp) = attendance_percentage p a"
    by (simp add: employeeDetail_def Let_def p_def a_def inRange_def)
  have tot: "reduce_hours hoursWorked inRange = total"
    by (simp add: reduce_hours_def or_0_def total_def)
  have avg: "averageHours (range_attendance start fin emp) =
      (if p > 0 then dround2 (ddiv total (of_nat p)) else 0)"
    by (simp add: range_attendance_def Let_def p_def inRange_def [symmetric] tot)
  have 1: "punctuality_score p l el =
      (if p > 0 then \<lfloor>dmul (ddiv (of_int (int p - int l - int el)) (of_nat p)) 100 + 1 / 2\<rfloor>
       else 0)"
    by (simp only: punctuality_score_def js_round_def)
  have 3: "attendance_percentage p a =
      (if p + a > 0 then \<lfloor>dmul (ddiv (of_nat p) (of_nat (p + a))) 100 + 1 / 2\<rfloor> else 0)"
    by (simp only: attendance_percentage_def js_round_def Let_def)
  have 4: "(if p > 0 then dround2 (ddiv total (of_nat p)) else 0) =
      (if p > 0 then ddiv (of_int \<lfloor>dmul (ddiv total (of_nat p)) 100 + 1 / 2\<rfloor>) 100 else 0)"
    by (simp only: dround2_def js_round_def)
  have 5: "p = 0 \<longrightarrow> attendance_percentage p a = 0 \<and> punctuality_score p l el = 0
      \<and> (if p > 0 then dround2 (ddiv total (of_nat p)) else 0) = 0"
    by (simp add: attendance_percentage_def punctuality_score_def Let_def js_round_def
        dmul_def ddiv_def fl_def)
  show ?thesis
    unfolding Let_def punct att avg
      inRange_def [symmetric] p_def [symmetric] a_def [symmetric] l_def [symmetric]
      el_def [symmetric] total_def [symmetric]
    using 1 3 4 5
    by (simp only: simp_thms)
qed

theorem period_statistics_witness:
  "detail_punctualityScore (employeeDetail 0 172800000 three_days_employee) = 100
   \<and> detail_attendancePercentage (employeeDetail 0 172800000 three_days_employee) = 100
   \<and> averageHours (range_attendance 0 172800000 three_days_employee) = fl (333 / 100)
   \<and> detail_punctualityScore (employeeDetail 0 172800000 late_absent_employee) = - 100"
  using period_statistics [of 0 172800000 three_days_employee]
    period_statistics [of 0 172800000 late_absent_employee]
  unfolding three_days_in_range late_absent_in_range Let_def
  by (simp add: three_days_numbers)

subsection \<open>Payslip\<close>

text \<open>
  When the salary data carries a base figure (\<^verbatim>\<open>baseSalary || basePay\<close> is a number, which
  the payslip shows as \<open>basicSalary\<close>), the allowances, the deductions and the totals of the
  payslip are the following.
\<close>

lemma payslip_amounts:
  assumes "js_or (baseSalary sd) (basePay sd) = Some b"
  shows "let p = make_payslip ma sd emp
         in transport p = 1000 \<and> meal p = 500 \<and> mobile p = 300
          \<and> performance p = (if monthly_attendancePercentage ma \<ge> 95 then 2000 else 0)
          \<and> totalAllowances p = foldl dadd 0 [transport p, meal p, mobile p, performance p]
          \<and> basicSalary p = b
          \<and> pf p = Some \<lfloor>dmul (basicSalary p) (fl (12 / 100)) + 1 / 2\<rfloor>
          \<and> esi p = Some \<lfloor>dmul (basicSalary p) (fl (175 / 10000)) + 1 / 2\<rfloor>
          \<and> tax p = 0
          \<and> advance p = (case salary_deductions (salary emp) of Some d \<Rightarrow> d | None \<Rightarrow> 0)
          \<and> grossEarnings p =
              dadd (case grossSalary sd of Some g \<Rightarrow> g | None \<Rightarrow> 0) (totalAllowances p)
          \<and> (\<exists>pfv esiv d. pf p = Some pfv \<and> esi p = Some esiv
               \<and> d = foldl dadd 0 [of_int pfv, of_int esiv, tax p, advance p]
               \<and> totalDeductions p = Some d
               \<and> netSalary p = Some (dsub (grossEarnings p) d))"
  using assms
  by (simp add: make_payslip_def Let_def or_0_def js_round_def split: option.splits)

lemma payslip_missing_base:
  assumes "js_or (baseSalary sd) (basePay sd) = None"
  shows "basicSalary (make_payslip ma sd emp) = 0 \<and> pf (make_payslip ma sd emp) = None
       \<and> esi (make_payslip ma sd emp) = None \<and> totalDeductions (make_payslip ma sd emp) = None
       \<and> netSalary (make_payslip ma sd emp) = None"
  using assms by (simp add: make_payslip_def Let_def or_0_def)

lemma payslip_30000_numbers:
  "\<lfloor>dmul 30000 (fl (3 / 25)) + 1 / 2\<rfloor> = 3600"
  "\<lfloor>dmul 30000 (fl (7 / 400)) + 1 / 2\<rfloor> = 525"
  "dadd (dadd (dadd (dadd 0 1000) 500) 300) 2000 = 3800"
  "dadd (dadd (dadd (dadd 0 3600) 525) 0) 0 = 4125"
  "dsub (dadd 31000 3800) 4125 = 30675"
  "\<lfloor>dmul 0 (fl (3 / 25)) + 1 / 2\<rfloor> = 0"
  by (simp_all add: fl_eval)

lemma payslip_30000:
  "performance (make_payslip
       \<lparr> monthly_presentDays = 24, monthly_absentDays = 1, monthly_attendancePercentage = 96 \<rparr>
       \<lparr> baseSalary = Some 30000, basePay = None, overtimePay = Some 1000,
         grossSalary = Some 31000 \<rparr> sample_employee) = 2000
   \<and> pf (make_payslip
       \<lparr> monthly_presentDays = 24, monthly_absentDays = 1, monthly_attendancePercentage = 96 \<rparr>
       \<lparr> baseSalary = Some 30000, basePay = None, overtimePay = Some 1000,
         grossSalary = Some 31000 \<rparr> sample_employee) = Some 3600
   \<and> esi (make_payslip
       \<lparr> monthly_presentDays = 24, monthly_absentDays = 1, monthly_attendancePercentage = 96 \<rparr>
       \<lparr> baseSalary = Some 30000, basePay = None, overtimePay = Some 1000,
         grossSalary = Some 31000 \<rparr> sample_employee) = Some 525
   \<and> netSalary (make_payslip
       \<lparr> monthly_presentDays = 24, monthly_absentDays = 1, monthly_attendancePercentage = 96 \<rparr>
       \<lparr> baseSalary = Some 30000, basePay = None, overtimePay = Some 1000,
         grossSalary = Some 31000 \<rparr> sample_employee) = Some 30675"
proof -
  let ?sd = "\<lparr> baseSalary = Some 30000, basePay = None, overtimePay = Some 1000,
         grossSalary = Some 31000 \<rparr>"
  let ?ma = "\<lparr> monthly_presentDays = 24, monthly_absentDays = 1,
        monthly_attendancePercentage = 96 \<rparr>"
  define p where "p = make_payslip ?ma ?sd sample_employee"
  have b: "js_or (baseSalary ?sd) (basePay ?sd) = Some 30000"
    by (simp add: js_or_def)
  have s: "salary_deductions (salary sample_employee) = None"
    by (simp add: sample_employee_def)
  from payslip_amounts [OF b, of ?ma sample_employee]
  have "performance p = 2000 \<and> pf p = Some 3600 \<and> esi p = Some 525 \<and> netSalary p = Some 30675"
    unfolding Let_def p_def [symmetric] s
    by (auto simp: payslip_30000_numbers)
  then show ?thesis
    unfolding p_def .
qed

text \<open>
  Claim C5 (the code departs from it). The claim has \<open>pf = round (basicSalary * 0.12)\<close> and
  \<open>esi = round (basicSalary * 0.0175)\<close> for every payslip. The handler shows
  \<^verbatim>\<open>baseSalary || basePay || 0\<close> as \<open>basicSalary\<close>, but computes the two deductions from
  \<^verbatim>\<open>baseSalary || basePay\<close> without the \<^verbatim>\<open>|| 0\<close>. For an employee with a base salary of 0, whose
  salary data has \<open>baseSalary\<close> 0 and no \<open>basePay\<close>, the payslip shows \<open>basicSalary\<close> 0, for
  which the claim gives \<open>pf = 0\<close>, while the handler's \<open>pf\<close>, \<open>esi\<close>, total of deductions and
  net salary are \<^verbatim>\<open>NaN\<close>.
\<close>

theorem payslip_zero_base:
  "basicSalary (make_payslip
       \<lparr> monthly_presentDays = 24, monthly_absentDays = 1, monthly_attendancePercentage = 96 \<rparr>
       \<lparr> baseSalary = Some 0, basePay = None, overtimePay = Some 0, grossSalary = Some 0 \<rparr>
       sample_employee) = 0
   \<and> js_round (dmul 0 (fl (12 / 100))) = 0
   \<and> pf (make_payslip
       \<lparr> monthly_presentDays = 24, monthly_absentDays = 1, monthly_attendancePercentage = 96 \<rparr>
       \<lparr> baseSalary = Some 0, basePay = None, overtimePay = Some 0, grossSalary = Some 0 \<rparr>
       sample_employee) = None
   \<and> esi (make_payslip
       \<lparr> monthly_presentDays = 24, monthly_absentDays = 1, monthly_attendancePercentage = 96 \<rparr>
       \<lparr> baseSalary = Some 0, basePay = None, overtimePay = Some 0, grossSalary = Some 0 \<rparr>
       sample_employee) = None
   \<and> netSalary (make_payslip
       \<lparr> monthly_presentDays = 24, monthly_absentDays = 1, monthly_attendancePercentage = 96 \<rparr>
       \<lparr> baseSalary = Some 0, basePay = None, overtimePay = Some 0, grossSalary = Some 0 \<rparr>
       sample_employee) = None"
proof -
  have "js_or (baseSalary \<lparr> baseSalary = Some 0, basePay = None, overtimePay = Some 0,
                            grossSalary = Some 0 \<rparr>)
              (basePay \<lparr> baseSalary = Some 0, basePay = None, overtimePay = Some 0,
                         grossSalary = Some 0 \<rparr>) = None"
    by (simp add: js_or_def)
  from payslip_missing_base [OF this] show ?thesis
    by (simp add: js_round_def payslip_30000_numbers)
qed

subsection \<open>Top performers\<close>

lemma sorted_sort_desc: "sorted_wrt (\<lambda>x y. key y \<le> key x) (sort_desc key xs)"
proof -
  have "sorted (map (\<lambda>x. - key x) (sort_key (\<lambda>x. - key x) xs))"
    by (rule sorted_sort_key)
  then show ?thesis
    by (simp add: sort_desc_def sorted_wrt_map)
qed

lemma set_sort_desc [simp]: "set (sort_desc key xs) = set xs"
  by (simp add: sort_desc_def)

lemma length_sort_desc [simp]: "length (sort_desc key xs) = length xs"
  by (simp add: sort_desc_def)

lemma mset_sort_desc [simp]: "mset (sort_desc key xs) = mset xs"
  by (simp add: sort_desc_def)

lemma sort_desc_stable:
  "filter (\<lambda>y. key y = k) (sort_desc key xs) = filter (\<lambda>y. key y = k) xs"
  using sort_key_stable [of "\<lambda>x. - key x" "- k" xs] by (simp add: sort_desc_def)

lemma sorted_wrt_take_drop:
  assumes "sorted_wrt R xs"
  shows "sorted_wrt R (take n xs)"
    and "\<forall>x \<in> set (take n xs). \<forall>y \<in> set (drop n xs). R x y"
proof -
  have "sorted_wrt R (take n xs @ drop n xs)"
    using assms by simp
  then show "sorted_wrt R (take n xs)"
    and "\<forall>x \<in> set (take n xs). \<forall>y \<in> set (drop n xs). R x y"
    unfolding sorted_wrt_append by blast+
qed

lemma in_take_or_drop: "x \<in> set xs \<Longrightarrow> x \<in> set (take n xs) \<or> x \<in> set (drop n xs)"
  by (metis Un_iff append_take_drop_id set_append)

lemma top_of_sort_desc:
  "sorted_wrt (\<lambda>x y. key y \<le> key x) (take n (sort_desc key xs))"
  "\<forall>x \<in> set (take n (sort_desc key xs)). \<forall>y \<in> set (drop n (sort_desc key xs)). key y \<le> key x"
  "mset (take n (sort_desc key xs)) + mset (drop n (sort_desc key xs)) = mset xs"
  "length (take n (sort_desc key xs)) = min n (length xs)"
proof -
  show "sorted_wrt (\<lambda>x y. key y \<le> key x) (take n (sort_desc key xs))"
    by (rule sorted_wrt_take_drop(1) [OF sorted_sort_desc])
  show "\<forall>x \<in> set (take n (sort_desc key xs)). \<forall>y \<in> set (drop n (sort_desc key xs)). key y \<le> key x"
    by (rule sorted_wrt_take_drop(2) [OF sorted_sort_desc])
  have "mset (take n (sort_desc key xs) @ drop n (sort_desc key xs)) = mset xs"
    by simp
  then show "mset (take n (sort_desc key xs)) + mset (drop n (sort_desc key xs)) = mset xs"
    by (simp only: mset_append)
  show "length (take n (sort_desc key xs)) = min n (length xs)"
    by (simp add: min.commute)
qed

text \<open>
  Claim C9 says that the dashboard list is ranked by the score \<open>0.7 * attendancePercentage +
  0.3 * punctualityScore\<close>. The dashboard sorts by attendance percentage: of two employees with
  attendance 90 and 80 and punctuality 0 and 100, the first is listed first, with score 63
  before score 86.
\<close>

lemma dashboard_scores:
  "dashboard_performanceScore (metrics ''A'' 90 0) = 63"
  "dashboard_performanceScore (metrics ''B'' 80 100) = 86"
  by (simp_all add: dashboard_performanceScore_def metrics_def fl_eval)

lemma dashboard_of_two:
  "dashboard_topPerformers [metrics ''A'' 90 0, metrics ''B'' 80 100] =
     [(metrics ''A'' 90 0, dashboard_performanceScore (metrics ''A'' 90 0)),
      (metrics ''B'' 80 100, dashboard_performanceScore (metrics ''B'' 80 100))]"
  by (simp add: dashboard_topPerformers_def sortedByAttendance_def sort_desc_def metrics_def)

theorem dashboard_ranking_counterexample:
  "map snd (dashboard_topPerformers [metrics ''A'' 90 0, metrics ''B'' 80 100]) = [63, 86]
   \<and> \<not> sorted_wrt (\<lambda>x y. y \<le> x)
         (map snd (dashboard_topPerformers [metrics ''A'' 90 0, metrics ''B'' 80 100]))"
  unfolding dashboard_of_two by (simp add: dashboard_scores)

text \<open>
  Values of the report's score on doubles: attendance 100, punctuality 100 and 1.04 hours
  give 70.19, since the sum is a little less than 70.195; with 1.07 hours they give 70.2.
\<close>

lemma report_score_7019:
  "report_performanceScore 100 100 (fl (104 / 100)) = fl (7019 / 100)"
  "report_performanceScore 100 100 (fl (107 / 100)) = fl (702 / 10)"
  "fl (7019 / 100) < fl (702 / 10)"
  by (simp_all add: report_performanceScore_def fl_eval)

lemma performanceScore_employeeDetail:
  "performanceScore (employeeDetail start fin emp) =
     report_performanceScore (detail_attendancePercentage (employeeDetail start fin emp))
       (detail_punctualityScore (employeeDetail start fin emp))
       (detail_totalHours (employeeDetail start fin emp))"
  by (simp add: employeeDetail_def Let_def)

text \<open>
  Claim C9, amended. The comprehensive report lists the first 10 employees in descending order
  of \<open>performanceScore\<close>, which is \<open>attendancePercentage * 0.4 + punctualityScore * 0.3 + min
  (totalHours / 160) 1 * 100 * 0.3\<close> computed on doubles and rounded to two decimals by
  \<^verbatim>\<open>Math.round(x * 100) / 100\<close>: the list is sorted by that score, has 10 entries or all of
  them, and no employee left out scores higher than a listed one. The dashboard lists the
  first 5 employees in descending order of attendance percentage, each with the score
  \<open>attendancePercentage * 0.7 + punctualityScore * 0.3\<close>, computed and rounded likewise, added
  to it; no employee left out has a higher attendance percentage than a listed one.
\<close>

theorem top_performers_ranking:
  "let details = map (employeeDetail start fin) employees;
       tp = report_topPerformers start fin employees;
       dash = dashboard_topPerformers employeeMetrics
   in sorted_wrt (\<lambda>x y. performanceScore y \<le> performanceScore x) tp
    \<and> length tp = min 10 (length employees)
    \<and> mset tp \<subseteq># mset details
    \<and> (\<forall>x \<in> set tp. \<forall>y \<in> set details. y \<notin> set tp \<longrightarrow> performanceScore y \<le> performanceScore x)
    \<and> (\<forall>d \<in> set details.
          performanceScore d =
            dround2
              (dadd (dadd (dmul (of_int (detail_attendancePercentage d)) (fl (4 / 10)))
                          (dmul (of_int (detail_punctualityScore d)) (fl (3 / 10))))
                    (dmul (dmul (min (ddiv (detail_totalHours d) 160) 1) 100) (fl (3 / 10)))))
    \<and> sorted_wrt (\<lambda>x y. metric_attendancePercentage (fst y) \<le> metric_attendancePercentage (fst x))
         dash
    \<and> length dash = min 5 (length employeeMetrics)
    \<and> mset (map fst dash) \<subseteq># mset employeeMetrics
    \<and> (\<forall>x \<in> set dash.
          snd x = dround2 (dadd (dmul (metric_attendancePercentage (fst x)) (fl (7 / 10)))
                                (dmul (metric_punctualityScore (fst x)) (fl (3 / 10)))))
    \<and> (\<forall>x \<in> set dash. \<forall>m \<in> set employeeMetrics. m \<notin> fst ` set dash
          \<longrightarrow> metric_attendancePercentage m \<le> metric_attendancePercentage (fst x))"
proof -
  define details where "details = map (employeeDetail start fin) employees"
  define s where "s = sort_desc performanceScore details"
  define sa where "sa = sort_desc metric_attendancePercentage employeeMetrics"
  have tp: "report_topPerformers start fin employees = take 10 s"
    by (simp add: report_topPerformers_def s_def details_def)
  have dash: "dashboard_topPerformers employeeMetrics =
      map (\<lambda>emp. (emp, dashboard_performanceScore emp)) (take 5 sa)"
    by (simp add: dashboard_topPerformers_def sortedByAttendance_def sa_def)
  have fst_dash: "map fst (dashboard_topPerformers employeeMetrics) = take 5 sa"
    unfolding dash by (simp add: comp_def)
  note top = top_of_sort_desc [where key = performanceScore and n = 10 and xs = details, folded s_def]
  note topa = top_of_sort_desc [where key = metric_attendancePercentage and n = 5 and xs = employeeMetrics,
      folded sa_def]
  have 1: "sorted_wrt (\<lambda>x y. performanceScore y \<le> performanceScore x) (take 10 s)"
    by (rule top(1))
  have 2: "length (take 10 s) = min 10 (length employees)"
    using top(4) by (simp add: details_def)
  have 3: "mset (take 10 s) \<subseteq># mset details"
    using top(3) by (metis mset_subset_eq_add_left)
  have 4: "\<forall>x \<in> set (take 10 s). \<forall>y \<in> set details. y \<notin> set (take 10 s)
      \<longrightarrow> performanceScore y \<le> performanceScore x"
  proof (intro ballI impI)
    fix x y
    assume x: "x \<in> set (take 10 s)" and y: "y \<in> set details" "y \<notin> set (take 10 s)"
    have "y \<in> set s"
      using y(1) by (simp add: s_def)
    with y(2) have "y \<in> set (drop 10 s)"
      using in_take_or_drop [of y s 10] by simp
    with top(2) x show "performanceScore y \<le> performanceScore x" by blast
  qed
  have 5: "\<forall>d \<in> set details.
          performanceScore d =
            dround2
              (dadd (dadd (dmul (of_int (detail_attendancePercentage d)) (fl (4 / 10)))
                          (dmul (of_int (detail_punctualityScore d)) (fl (3 / 10))))
                    (dmul (dmul (min (ddiv (detail_totalHours d) 160) 1) 100) (fl (3 / 10))))"
    using performanceScore_employeeDetail [of start fin]
    by (auto simp: details_def report_performanceScore_def)
  have 6: "sorted_wrt (\<lambda>x y. metric_attendancePercentage (fst y) \<le> metric_attendancePercentage (fst x))
      (dashboard_topPerformers employeeMetrics)"
    using topa(1) unfolding dash by (simp add: sorted_wrt_map)
  have 7: "length (dashboard_topPerformers employeeMetrics) = min 5 (length employeeMetrics)"
    using topa(4) unfolding dash by simp
  have 8: "mset (map fst (dashboard_topPerformers employeeMetrics)) \<subseteq># mset employeeMetrics"
    unfolding fst_dash using topa(3) by (metis mset_subset_eq_add_left)
  have 9: "\<forall>x \<in> set (dashboard_topPerformers employeeMetrics).
          snd x = dround2 (dadd (dmul (metric_attendancePercentage (fst x)) (fl (7 / 10)))
                                (dmul (metric_punctualityScore (fst x)) (fl (3 / 10))))"
    unfolding dash by (auto simp: dashboard_performanceScore_def)
  have 10: "\<forall>x \<in> set (dashboard_topPerformers employeeMetrics). \<forall>m \<in> set employeeMetrics.
      m \<notin> fst ` set (dashboard_topPerformers employeeMetrics)
          \<longrightarrow> metric_attendancePercentage m \<le> metric_attendancePercentage (fst x)"
  proof (intro ballI impI)
    fix x m
    assume x: "x \<in> set (dashboard_topPerformers employeeMetrics)"
      and m: "m \<in> set employeeMetrics" "m \<notin> fst ` set (dashboard_topPerformers employeeMetrics)"
    have img: "fst ` set (dashboard_topPerformers employeeMetrics) = set (take 5 sa)"
      using fst_dash by (metis set_map)
    have "m \<in> set sa"
      using m(1) by (simp add: sa_def)
    with m(2) img have "m \<in> set (drop 5 sa)"
      using in_take_or_drop [of m sa 5] by simp
    moreover have "fst x \<in> set (take 5 sa)"
      using x img by auto
    ultimately show "metric_attendancePercentage m \<le> metric_attendancePercentage (fst x)"
      using topa(2) by blast
  qed
  show ?thesis
    unfolding Let_def details_def [symmetric]
    using 1 2 3 4 5 6 7 8 9 10 unfolding tp [symmetric]
    by (intro conjI)
qed

theorem top_performers_ranking_witness:
  "sorted_wrt (\<lambda>x y. performanceScore y \<le> performanceScore x)
     (report_topPerformers 0 172800000 [sample_employee, three_days_employee])
   \<and> length (report_topPerformers 0 172800000 [sample_employee, three_days_employee]) = 2
   \<and> length (dashboard_topPerformers [metrics ''A'' 90 0, metrics ''B'' 80 100]) = 2"
  using top_performers_ranking
    [of 0 172800000 "[sample_employee, three_days_employee]"
      "[metrics ''A'' 90 0, metrics ''B'' 80 100]"]
  unfolding Let_def by simp

end
